theory Spec2Isabelle
  imports Complex_Main
begin

section \<open>Conventions of the embedding\<close>

text \<open>
  The development embeds the control plane of \<^verbatim>\<open>src/vm_daemon_sys\<close>: the service
  manager (registry and lifecycle), the load balancer, the health monitor and the
  orchestrator. Every Python method becomes a HOL function that takes the object's state
  and returns the result together with the new state.

  \<^item> A Python \<^verbatim>\<open>int\<close> is an \<open>int\<close>; a counter that only ever holds a list index
    residue is a \<open>nat\<close>.
  \<^item> A Python \<^verbatim>\<open>float\<close> is represented by the \<open>real\<close> it stands for. Arithmetic
    on floats (the load balancer's smoothing, weights and scores, the orchestrator's
    running average) rounds every operation to binary64 (section ``Binary floating
    point''), and a literal that takes part in it is the binary64 number nearest to its
    decimal value, as is an \<^verbatim>\<open>int\<close> operand. A float that is only stored or compared
    stands for its decimal value.
  \<^item> A \<^verbatim>\<open>dict\<close> is a map \<open>'k \<rightharpoonup> 'v\<close>, or an association list where the source
    iterates over it.
  \<^item> Time stamps (\<^verbatim>\<open>datetime.now()\<close>, \<^verbatim>\<open>time.time()\<close>) and the string hash are inputs
    of the functions that read them.
  \<^item> Locks are not modelled: every function is one atomic step.
\<close>

section \<open>Service manager (service\_manager.py)\<close>

datatype ServiceType =
  RELEVANCE | WISDOM | RATIONALITY | PHENOMENOLOGY | MEANING_MAKING | INTEGRATION | SILICON_SAGE

datatype ServiceStatus = STOPPED | STARTING | RUNNING | STOPPING | ERROR | MAINTENANCE

record ServiceConfig =
  service_type :: ServiceType
  instance_id :: string
  port :: int
  host :: string
  workers :: int
  memory_limit :: int
  cpu_limit :: real
  environment :: "(string \<times> string) list"
  dependencies :: "ServiceType list"
  auto_restart :: bool
  health_check_interval :: int
  startup_timeout :: int
  shutdown_timeout :: int

record ServiceInstance =
  config :: ServiceConfig
  status :: ServiceStatus
  process_id :: "int option"
  start_time :: "real option"
  last_health_check :: "real option"
  health_status :: string
  error_count :: int
  restart_count :: int
  inst_metrics :: "(string \<times> real) list"

text \<open>The dataclass defaults of \<^verbatim>\<open>ServiceInstance(config=config)\<close>.\<close>

definition new_instance :: "ServiceConfig \<Rightarrow> ServiceInstance" where
  "new_instance cfg =
     \<lparr> config = cfg, status = STOPPED, process_id = None, start_time = None,
       last_health_check = None, health_status = ''unknown'', error_count = 0,
       restart_count = 0, inst_metrics = [] \<rparr>"

text \<open>
  \<^verbatim>\<open>self.services\<close> maps an identifier to its instance; \<^verbatim>\<open>self.service_registry\<close>
  holds, for every service type, the list of registered identifiers in registration order.
\<close>

record ServiceManager =
  services :: "string \<rightharpoonup> ServiceInstance"
  service_registry :: "ServiceType \<Rightarrow> string list"

definition init_service_manager :: ServiceManager where
  "init_service_manager = \<lparr> services = Map.empty, service_registry = (\<lambda>_. []) \<rparr>"

text \<open>
  \<^verbatim>\<open>register_service\<close>: builds a fresh instance, stores it under the identifier of the
  configuration, appends the identifier to the list of its type, and returns the
  identifier. The source has no membership test before the store.
\<close>

definition register_service :: "ServiceManager \<Rightarrow> ServiceConfig \<Rightarrow> string \<times> ServiceManager" where
  "register_service sm cfg =
     (let instance = new_instance cfg;
          iid = instance_id cfg
      in (iid,
          sm\<lparr> services := (services sm)(iid \<mapsto> instance),
              service_registry := (service_registry sm)
                (service_type cfg := service_registry sm (service_type cfg) @ [iid]) \<rparr>))"

text \<open>
  \<^verbatim>\<open>get_services_by_type\<close>: the instances of the registered identifiers of a type that
  are still in \<^verbatim>\<open>services\<close>, in list order.
\<close>

definition get_services_by_type :: "ServiceManager \<Rightarrow> ServiceType \<Rightarrow> ServiceInstance list" where
  "get_services_by_type sm ty = List.map_filter (services sm) (service_registry sm ty)"

definition get_healthy_services :: "ServiceManager \<Rightarrow> ServiceType \<Rightarrow> ServiceInstance list" where
  "get_healthy_services sm ty =
     filter (\<lambda>service. status service = RUNNING \<and> health_status service = ''healthy'')
       (get_services_by_type sm ty)"

text \<open>
  \<^verbatim>\<open>_check_dependencies\<close>: the loop returns \<^verbatim>\<open>False\<close> at the first dependency type
  without a healthy running instance.
\<close>

fun check_dependencies_loop :: "ServiceManager \<Rightarrow> ServiceType list \<Rightarrow> bool" where
  "check_dependencies_loop sm [] = True"
| "check_dependencies_loop sm (dep_type # rest) =
     (if get_healthy_services sm dep_type = [] then False
      else check_dependencies_loop sm rest)"

definition check_dependencies :: "ServiceManager \<Rightarrow> ServiceConfig \<Rightarrow> bool" where
  "check_dependencies sm cfg = check_dependencies_loop sm (dependencies cfg)"

text \<open>
  \<^verbatim>\<open>_start_service_process\<close> and \<^verbatim>\<open>_stop_service_process\<close> are the simulations of the
  source: the first stores \<^verbatim>\<open>12345 + hash(instance_id) % 10000\<close> as process identifier
  and reports success, the second only reports success. The string hash is the
  parameter \<open>hash_fn\<close>.
\<close>

definition start_service_process :: "(string \<Rightarrow> int) \<Rightarrow> ServiceInstance \<Rightarrow> bool \<times> ServiceInstance" where
  "start_service_process hash_fn instance =
     (True, instance\<lparr> process_id := Some (12345 + hash_fn (instance_id (config instance)) mod 10000) \<rparr>)"

definition stop_service_process :: "ServiceInstance \<Rightarrow> bool \<times> ServiceInstance" where
  "stop_service_process instance = (True, instance)"

text \<open>
  \<^verbatim>\<open>start_service\<close> returns the success flag, the new state and the status changes passed
  to \<^verbatim>\<open>_notify_status_change\<close>, in order. The three early returns (unknown identifier,
  status other than \<^verbatim>\<open>STOPPED\<close>, dependencies not met) come before any assignment. The
  simulated process start raises nothing, so the \<^verbatim>\<open>except\<close> branch of the source has no
  counterpart here; the failure branch of the \<^verbatim>\<open>if success\<close> is kept.
\<close>

definition start_service ::
  "(string \<Rightarrow> int) \<Rightarrow> real \<Rightarrow> ServiceManager \<Rightarrow> string
     \<Rightarrow> bool \<times> ServiceManager \<times> (string \<times> ServiceStatus) list" where
  "start_service hash_fn now sm iid =
     (case services sm iid of
        None \<Rightarrow> (False, sm, [])
      | Some instance \<Rightarrow>
          if status instance \<noteq> STOPPED then (False, sm, [])
          else if \<not> check_dependencies sm (config instance) then (False, sm, [])
          else
            (let starting = instance\<lparr> status := STARTING, start_time := Some now \<rparr>;
                 (success, started) = start_service_process hash_fn starting;
                 final = (if success then started\<lparr> status := RUNNING \<rparr>
                          else started\<lparr> status := ERROR, error_count := error_count started + 1 \<rparr>)
             in (success,
                 sm\<lparr> services := (services sm)(iid \<mapsto> final) \<rparr>,
                 [(iid, STARTING), (iid, status final)])))"

text \<open>\<^verbatim>\<open>stop_service\<close>, symmetric to \<^verbatim>\<open>start_service\<close>.\<close>

definition stop_service ::
  "ServiceManager \<Rightarrow> string \<Rightarrow> bool \<times> ServiceManager \<times> (string \<times> ServiceStatus) list" where
  "stop_service sm iid =
     (case services sm iid of
        None \<Rightarrow> (False, sm, [])
      | Some instance \<Rightarrow>
          if status instance \<noteq> RUNNING \<and> status instance \<noteq> STARTING then (False, sm, [])
          else
            (let stopping = instance\<lparr> status := STOPPING \<rparr>;
                 (success, stopped) = stop_service_process stopping;
                 final = (if success then stopped\<lparr> status := STOPPED, process_id := None \<rparr>
                          else stopped\<lparr> status := ERROR, error_count := error_count stopped + 1 \<rparr>)
             in (success,
                 sm\<lparr> services := (services sm)(iid \<mapsto> final) \<rparr>,
                 [(iid, STOPPING), (iid, status final)])))"

subsection \<open>Concrete configurations and states\<close>

text \<open>The dataclass defaults of \<^verbatim>\<open>ServiceConfig\<close>, for a given type and identifier.\<close>

definition default_config :: "ServiceType \<Rightarrow> string \<Rightarrow> ServiceConfig" where
  "default_config ty iid =
     \<lparr> service_type = ty, instance_id = iid, port = 8080, host = ''localhost'', workers = 1,
       memory_limit = 1024, cpu_limit = 1, environment = [], dependencies = [],
       auto_restart = True, health_check_interval = 30, startup_timeout = 60,
       shutdown_timeout = 30 \<rparr>"

text \<open>
  One identifier registered, started, and then registered a second time: the pair of the
  state before and after the second registration.
\<close>

definition duplicate_scenario :: "ServiceManager \<times> ServiceManager" where
  "duplicate_scenario =
     (let sm1 = snd (register_service init_service_manager (default_config RELEVANCE ''svc''));
          sm2 = fst (snd (start_service (\<lambda>_. 0) 0 sm1 ''svc''));
          sm3 = snd (register_service sm2 (default_config RELEVANCE ''svc''))
      in (sm2, sm3))"



section \<open>Binary floating point\<close>

text \<open>
  A Python \<^verbatim>\<open>float\<close> is an IEEE 754 binary64 number. A finite float is
  represented by the real number it stands for, and an arithmetic operation on floats is
  the exact operation on reals followed by \<open>round_double\<close>, the rounding to the nearest
  binary64 number with ties to the even significand. For \<open>x > 0\<close> the binade of \<open>x\<close>
  is the exponent \<open>e\<close> with \<open>2^e \<le> x < 2^(e+1)\<close>, but not below \<open>-1022\<close>, where the
  subnormal numbers begin; the numbers of that binade are the multiples of the quantum
  \<open>2^(e-52)\<close>. Results beyond the largest finite binary64 number (infinities) and
  not-a-number values are not represented.
\<close>

definition rne :: "real \<Rightarrow> int" where
  "rne y =
     (let f = \<lfloor>y\<rfloor>
      in if y - of_int f < 1 / 2 then f
         else if 1 / 2 < y - of_int f then f + 1
         else if even f then f else f + 1)"

definition binade :: "real \<Rightarrow> int" where
  "binade x = max \<lfloor>log 2 x\<rfloor> (- 1022)"

definition quantum :: "real \<Rightarrow> real" where
  "quantum x = 2 powr (real_of_int (binade x) - 52)"

definition round_double :: "real \<Rightarrow> real" where
  "round_double x =
     (if x = 0 then 0
      else if 0 < x then quantum x * of_int (rne (x / quantum x))
      else - (quantum (- x) * of_int (rne (- x / quantum (- x)))))"

text \<open>The reals that are binary64 numbers.\<close>

definition is_double :: "real \<Rightarrow> bool" where
  "is_double x = (round_double x = x)"

section \<open>Load balancer (load\_balancer.py)\<close>

datatype LoadBalancingStrategy =
  ROUND_ROBIN | WEIGHTED_ROUND_ROBIN | LEAST_CONNECTIONS | LEAST_RESPONSE_TIME | COGNITIVE_AWARE

record ServiceMetrics =
  metrics_instance_id :: string
  current_connections :: int
  total_requests :: int
  average_response_time :: real
  cpu_usage :: real
  memory_usage :: real
  cognitive_load :: real
  error_rate :: real
  last_updated :: real

text \<open>The dataclass defaults of \<^verbatim>\<open>ServiceMetrics(instance_id=instance_id)\<close>.\<close>

definition new_metrics :: "string \<Rightarrow> ServiceMetrics" where
  "new_metrics iid =
     \<lparr> metrics_instance_id = iid, current_connections = 0, total_requests = 0,
       average_response_time = 0, cpu_usage = 0, memory_usage = 0, cognitive_load = 0,
       error_rate = 0, last_updated = 0 \<rparr>"

text \<open>
  The state of a \<^verbatim>\<open>LoadBalancer\<close>. The reference to the service manager is an argument
  of the functions that read it. A round robin counter starts at 0 and is only ever
  assigned a remainder modulo a list length, hence a \<open>nat\<close>.
\<close>

record LoadBalancer =
  strategy :: LoadBalancingStrategy
  metrics :: "string \<rightharpoonup> ServiceMetrics"
  round_robin_counters :: "ServiceType \<Rightarrow> nat"
  weights :: "string \<rightharpoonup> real"

definition init_load_balancer :: "LoadBalancingStrategy \<Rightarrow> LoadBalancer" where
  "init_load_balancer strat =
     \<lparr> strategy = strat, metrics = Map.empty, round_robin_counters = (\<lambda>_. 0),
       weights = Map.empty \<rparr>"

subsection \<open>Metrics\<close>

text \<open>
  The dictionary argument of \<^verbatim>\<open>update_service_metrics\<close>, one optional field per key that
  the method reads with \<^verbatim>\<open>metrics.get(key, default)\<close>.
\<close>

record MetricsUpdate =
  upd_connections :: "int option"
  upd_total_requests :: "int option"
  upd_avg_response_time :: "real option"
  upd_cpu_usage :: "real option"
  upd_memory_usage :: "real option"
  upd_cognitive_load :: "real option"
  upd_error_rate :: "real option"

definition dict_get :: "'a option \<Rightarrow> 'a \<Rightarrow> 'a" where
  "dict_get entry dflt = (case entry of None \<Rightarrow> dflt | Some v \<Rightarrow> v)"

definition update_service_metrics ::
  "real \<Rightarrow> LoadBalancer \<Rightarrow> string \<Rightarrow> MetricsUpdate \<Rightarrow> LoadBalancer" where
  "update_service_metrics current_time lb iid upd =
     (let service_metrics = (case metrics lb iid of None \<Rightarrow> new_metrics iid | Some m \<Rightarrow> m)
      in lb\<lparr> metrics := (metrics lb)(iid \<mapsto> service_metrics
           \<lparr> current_connections := dict_get (upd_connections upd) 0,
             total_requests := dict_get (upd_total_requests upd) 0,
             average_response_time := dict_get (upd_avg_response_time upd) 0,
             cpu_usage := dict_get (upd_cpu_usage upd) 0,
             memory_usage := dict_get (upd_memory_usage upd) 0,
             cognitive_load := dict_get (upd_cognitive_load upd) 0,
             error_rate := dict_get (upd_error_rate upd) 0,
             last_updated := current_time \<rparr>) \<rparr>)"

text \<open>\<^verbatim>\<open>record_request_start\<close>: creates the entry when it is missing, then counts the request in.\<close>

definition record_request_start :: "LoadBalancer \<Rightarrow> string \<Rightarrow> LoadBalancer" where
  "record_request_start lb iid =
     (let m = (case metrics lb iid of None \<Rightarrow> new_metrics iid | Some m \<Rightarrow> m)
      in lb\<lparr> metrics := (metrics lb)(iid \<mapsto> m\<lparr> current_connections := current_connections m + 1 \<rparr>) \<rparr>)"

text \<open>
  The smoothing factor of \<^verbatim>\<open>record_request_end\<close>: the literal \<^verbatim>\<open>0.1\<close>, that is the
  binary64 number nearest to one tenth.
\<close>

definition alpha :: real where
  "alpha = round_double (1 / 10)"

text \<open>
  The two expressions of \<^verbatim>\<open>record_request_end\<close>, every operation rounded:
  \<^verbatim>\<open>alpha * sample + (1 - alpha) * old\<close> and \<^verbatim>\<open>(1 - alpha) * old\<close>.
\<close>

definition smooth :: "real \<Rightarrow> real \<Rightarrow> real" where
  "smooth sample old =
     round_double (round_double (alpha * sample) + round_double (round_double (1 - alpha) * old))"

definition decay :: "real \<Rightarrow> real" where
  "decay old = round_double (round_double (1 - alpha) * old)"

text \<open>
  \<^verbatim>\<open>record_request_end\<close>: returns at once when the identifier has no entry; otherwise
  counts the request out (not below 0), counts it in the total, and smooths the response
  time with the sample and the error rate with 1 on failure; on success the error rate
  only decays.
\<close>

definition record_request_end :: "LoadBalancer \<Rightarrow> string \<Rightarrow> real \<Rightarrow> bool \<Rightarrow> LoadBalancer" where
  "record_request_end lb iid response_time success =
     (case metrics lb iid of
        None \<Rightarrow> lb
      | Some m \<Rightarrow>
          lb\<lparr> metrics := (metrics lb)(iid \<mapsto> m
            \<lparr> current_connections := max 0 (current_connections m - 1),
              total_requests := total_requests m + 1,
              average_response_time := smooth response_time (average_response_time m),
              error_rate := (if \<not> success then smooth 1 (error_rate m)
                             else decay (error_rate m)) \<rparr>) \<rparr>)"

text \<open>
  \<^verbatim>\<open>_calculate_instance_weight\<close>, every operation rounded, and
  \<^verbatim>\<open>update_service_weights\<close>.
\<close>

definition calculate_instance_weight :: "ServiceMetrics \<Rightarrow> real" where
  "calculate_instance_weight m =
     (let base_weight = 1;
          connection_penalty =
            round_double (round_double (real_of_int (current_connections m)) * round_double (1 / 10));
          response_time_penalty = round_double (average_response_time m / 1000);
          error_penalty = round_double (error_rate m * 5);
          cognitive_penalty = round_double (cognitive_load m * (1 / 2))
      in max (round_double (1 / 10))
           (round_double
              (round_double
                 (round_double (round_double (base_weight - connection_penalty)
                    - response_time_penalty)
                  - error_penalty)
               - cognitive_penalty)))"

definition update_service_weights :: "real \<Rightarrow> LoadBalancer \<Rightarrow> LoadBalancer" where
  "update_service_weights current_time lb =
     lb\<lparr> weights := (\<lambda>iid.
           case metrics lb iid of
             None \<Rightarrow> weights lb iid
           | Some m \<Rightarrow>
               if current_time - last_updated m > 300 then weights lb iid
               else Some (calculate_instance_weight m)) \<rparr>"

subsection \<open>Selection strategies\<close>

text \<open>
  The private selection methods are called by \<^verbatim>\<open>select_service_instance\<close> only, and only
  with a list of at least two instances. On an empty list the source would raise
  (\<^verbatim>\<open>ZeroDivisionError\<close> or \<^verbatim>\<open>IndexError\<close>); that case is not reachable and not
  represented.
\<close>

definition round_robin_select ::
  "LoadBalancer \<Rightarrow> ServiceType \<Rightarrow> ServiceInstance list \<Rightarrow> string \<times> LoadBalancer" where
  "round_robin_select lb ty instances =
     (let counter = round_robin_counters lb ty;
          selected = instances ! (counter mod length instances)
      in (instance_id (config selected),
          lb\<lparr> round_robin_counters := (round_robin_counters lb)
                (ty := (counter + 1) mod length instances) \<rparr>))"

text \<open>Python's \<^verbatim>\<open>int(x)\<close> on a float truncates towards zero.\<close>

definition py_int :: "real \<Rightarrow> int" where
  "py_int x = (if 0 \<le> x then \<lfloor>x\<rfloor> else \<lceil>x\<rceil>)"

definition weighted_instances :: "LoadBalancer \<Rightarrow> ServiceInstance list \<Rightarrow> ServiceInstance list" where
  "weighted_instances lb instances =
     concat (map (\<lambda>instance.
        let weight = dict_get (weights lb (instance_id (config instance))) 1;
            count = max 1 (py_int (round_double (weight * 10)))
        in replicate (nat count) instance) instances)"

definition weighted_round_robin_select ::
  "LoadBalancer \<Rightarrow> ServiceType \<Rightarrow> ServiceInstance list \<Rightarrow> string \<times> LoadBalancer" where
  "weighted_round_robin_select lb ty instances =
     (let weighted = weighted_instances lb instances
      in if weighted = [] then (instance_id (config (instances ! 0)), lb)
         else round_robin_select lb ty weighted)"

text \<open>
  A float that may be \<^verbatim>\<open>float('inf')\<close>, with the comparison \<^verbatim>\<open><\<close> of the source.
\<close>

datatype pyfloat = Fin real | PosInf

fun pf_less :: "pyfloat \<Rightarrow> pyfloat \<Rightarrow> bool" where
  "pf_less (Fin a) (Fin b) = (a < b)"
| "pf_less (Fin a) PosInf = True"
| "pf_less PosInf _ = False"

text \<open>
  The three scoring strategies share one loop: a best instance (initially \<^verbatim>\<open>None\<close>) and
  a minimum (initially infinity); an instance replaces the best one when its score is
  strictly smaller than the minimum. The result is the best instance, or the first
  instance of the list when no score was below infinity.
\<close>

fun select_min_loop ::
  "(ServiceInstance \<Rightarrow> pyfloat) \<Rightarrow> ServiceInstance list \<Rightarrow> ServiceInstance option \<Rightarrow> pyfloat
     \<Rightarrow> ServiceInstance option" where
  "select_min_loop score [] best minimum = best"
| "select_min_loop score (instance # rest) best minimum =
     (if pf_less (score instance) minimum
      then select_min_loop score rest (Some instance) (score instance)
      else select_min_loop score rest best minimum)"

definition select_min :: "(ServiceInstance \<Rightarrow> pyfloat) \<Rightarrow> ServiceInstance list \<Rightarrow> string" where
  "select_min score instances =
     (case select_min_loop score instances None PosInf of
        Some best_instance \<Rightarrow> instance_id (config best_instance)
      | None \<Rightarrow> instance_id (config (instances ! 0)))"

text \<open>\<^verbatim>\<open>_least_connections_select\<close>: 0 connections for an identifier without an entry.\<close>

definition connections_of :: "(string \<rightharpoonup> ServiceMetrics) \<Rightarrow> string \<Rightarrow> pyfloat" where
  "connections_of ms iid =
     (case ms iid of None \<Rightarrow> Fin 0 | Some m \<Rightarrow> Fin (real_of_int (current_connections m)))"

definition least_connections_select :: "LoadBalancer \<Rightarrow> ServiceInstance list \<Rightarrow> string" where
  "least_connections_select lb instances =
     select_min (\<lambda>instance. connections_of (metrics lb) (instance_id (config instance))) instances"

text \<open>
  \<^verbatim>\<open>_least_response_time_select\<close>: the response time compared for an instance is
  infinity when the identifier has no entry in the metrics table, 100 when the entry has
  the average 0, and the average of the entry otherwise.
\<close>

definition effective_response_time :: "(string \<rightharpoonup> ServiceMetrics) \<Rightarrow> string \<Rightarrow> pyfloat" where
  "effective_response_time ms iid =
     (case ms iid of
        None \<Rightarrow> PosInf
      | Some m \<Rightarrow> if average_response_time m = 0 then Fin 100 else Fin (average_response_time m))"

definition least_response_time_select :: "LoadBalancer \<Rightarrow> ServiceInstance list \<Rightarrow> string" where
  "least_response_time_select lb instances =
     select_min (\<lambda>instance. effective_response_time (metrics lb) (instance_id (config instance)))
       instances"

text \<open>
  \<^verbatim>\<open>_cognitive_aware_select\<close>. The request context is an optional dictionary; the only
  key read is \<^verbatim>\<open>'complexity'\<close>, and only when the dictionary is not empty. The context is
  an association list of its numeric entries.
\<close>

definition request_complexity_of :: "(string \<times> real) list option \<Rightarrow> real" where
  "request_complexity_of request_context =
     (case request_context of
        None \<Rightarrow> 1
      | Some ctx \<Rightarrow> if ctx = [] then 1 else dict_get (map_of ctx ''complexity'') 1)"

definition cognitive_score :: "(string \<rightharpoonup> ServiceMetrics) \<Rightarrow> real \<Rightarrow> string \<Rightarrow> pyfloat" where
  "cognitive_score ms request_complexity iid =
     (case ms iid of
        None \<Rightarrow> Fin request_complexity
      | Some m \<Rightarrow>
          (let connection_factor = round_double (round_double (real_of_int (current_connections m)) / 10);
               response_time_factor = round_double (average_response_time m / 1000);
               cognitive_load_factor = cognitive_load m;
               error_factor = round_double (error_rate m * 10)
           in Fin (round_double
                (round_double
                   (round_double
                      (round_double
                         (round_double (round_double (3 / 10) * connection_factor)
                          + round_double (round_double (3 / 10) * response_time_factor))
                       + round_double (round_double (2 / 10) * cognitive_load_factor))
                    + round_double (round_double (2 / 10) * error_factor))
                 * request_complexity))))"

definition cognitive_aware_select ::
  "LoadBalancer \<Rightarrow> ServiceInstance list \<Rightarrow> (string \<times> real) list option \<Rightarrow> string" where
  "cognitive_aware_select lb instances request_context =
     select_min (\<lambda>instance. cognitive_score (metrics lb) (request_complexity_of request_context)
                   (instance_id (config instance))) instances"

text \<open>
  \<^verbatim>\<open>select_service_instance\<close>: no service manager or no healthy instance gives
  \<^verbatim>\<open>None\<close>; a single healthy instance is returned at once, whatever the strategy and
  without touching the counter; otherwise the strategy decides.
\<close>

definition select_service_instance ::
  "LoadBalancer \<Rightarrow> ServiceManager option \<Rightarrow> ServiceType \<Rightarrow> (string \<times> real) list option
     \<Rightarrow> string option \<times> LoadBalancer" where
  "select_service_instance lb service_manager ty request_context =
     (case service_manager of
        None \<Rightarrow> (None, lb)
      | Some sm \<Rightarrow>
          (let healthy_instances = get_healthy_services sm ty
           in if healthy_instances = [] then (None, lb)
              else if length healthy_instances = 1
                then (Some (instance_id (config (healthy_instances ! 0))), lb)
              else
                (case strategy lb of
                   ROUND_ROBIN \<Rightarrow>
                     (let (iid, lb') = round_robin_select lb ty healthy_instances
                      in (Some iid, lb'))
                 | WEIGHTED_ROUND_ROBIN \<Rightarrow>
                     (let (iid, lb') = weighted_round_robin_select lb ty healthy_instances
                      in (Some iid, lb'))
                 | LEAST_CONNECTIONS \<Rightarrow>
                     (Some (least_connections_select lb healthy_instances), lb)
                 | LEAST_RESPONSE_TIME \<Rightarrow>
                     (Some (least_response_time_select lb healthy_instances), lb)
                 | COGNITIVE_AWARE \<Rightarrow>
                     (Some (cognitive_aware_select lb healthy_instances request_context), lb))))"

subsection \<open>Sequences of calls\<close>

text \<open>
  \<open>n\<close> consecutive calls of \<^verbatim>\<open>select_service_instance\<close> for one type against a service
  manager that does not change in between: the identifiers returned, in call order, and
  the balancer after the last call.
\<close>

fun select_repeatedly ::
  "nat \<Rightarrow> LoadBalancer \<Rightarrow> ServiceManager \<Rightarrow> ServiceType \<Rightarrow> string option list \<times> LoadBalancer" where
  "select_repeatedly 0 lb sm ty = ([], lb)"
| "select_repeatedly (Suc n) lb sm ty =
     (let (r, lb') = select_service_instance lb (Some sm) ty None;
          (rs, lb'') = select_repeatedly n lb' sm ty
      in (r # rs, lb''))"

text \<open>A sequence of request start and request end calls, applied in order.\<close>

datatype request_event = RequestStart string | RequestEnd string real bool

fun apply_event :: "LoadBalancer \<Rightarrow> request_event \<Rightarrow> LoadBalancer" where
  "apply_event lb (RequestStart iid) = record_request_start lb iid"
| "apply_event lb (RequestEnd iid response_time success) =
     record_request_end lb iid response_time success"

definition apply_events :: "LoadBalancer \<Rightarrow> request_event list \<Rightarrow> LoadBalancer" where
  "apply_events lb evs = foldl apply_event lb evs"

text \<open>
  The in-flight count of an identifier: the field of its entry, and 0, the default of a
  new entry, when it has none.
\<close>

definition connection_count :: "LoadBalancer \<Rightarrow> string \<Rightarrow> int" where
  "connection_count lb iid =
     (case metrics lb iid of None \<Rightarrow> 0 | Some m \<Rightarrow> current_connections m)"

text \<open>
  The smoothed error rate of an identifier: the field of its entry, and 0, the default of
  a new entry, when it has none.
\<close>

definition error_rate_of :: "LoadBalancer \<Rightarrow> string \<Rightarrow> real" where
  "error_rate_of lb iid = (case metrics lb iid of None \<Rightarrow> 0 | Some m \<Rightarrow> error_rate m)"

subsection \<open>Concrete balancer states\<close>

text \<open>An instance as the monitoring loop leaves it after a successful probe.\<close>

definition running_healthy :: "ServiceType \<Rightarrow> string \<Rightarrow> ServiceInstance" where
  "running_healthy ty iid =
     (new_instance (default_config ty iid))\<lparr> status := RUNNING, health_status := ''healthy'' \<rparr>"

text \<open>A service manager with the given healthy running instances of one type, in list order.\<close>

definition healthy_manager :: "ServiceType \<Rightarrow> string list \<Rightarrow> ServiceManager" where
  "healthy_manager ty ids =
     \<lparr> services = map_of (map (\<lambda>iid. (iid, running_healthy ty iid)) ids),
       service_registry = (\<lambda>t. if t = ty then ids else []) \<rparr>"

text \<open>An update dictionary with the single key \<^verbatim>\<open>'avg_response_time'\<close>.\<close>

definition avg_update :: "real \<Rightarrow> MetricsUpdate" where
  "avg_update t =
     \<lparr> upd_connections = None, upd_total_requests = None, upd_avg_response_time = Some t,
       upd_cpu_usage = None, upd_memory_usage = None, upd_cognitive_load = None,
       upd_error_rate = None \<rparr>"

text \<open>An update dictionary with the single key \<^verbatim>\<open>'connections'\<close>.\<close>

definition connections_update :: "int \<Rightarrow> MetricsUpdate" where
  "connections_update c =
     \<lparr> upd_connections = Some c, upd_total_requests = None, upd_avg_response_time = None,
       upd_cpu_usage = None, upd_memory_usage = None, upd_cognitive_load = None,
       upd_error_rate = None \<rparr>"

text \<open>
  A least-response-time balancer in which \<open>a\<close> has the average 150 and \<open>b\<close> has no
  entry; and the same balancer after one \<^verbatim>\<open>record_request_start\<close> for \<open>b\<close>, which gives
  \<open>b\<close> an entry without any sample.
\<close>

definition lrt_absent :: LoadBalancer where
  "lrt_absent = update_service_metrics 0 (init_load_balancer LEAST_RESPONSE_TIME) ''a'' (avg_update 150)"

definition lrt_started :: LoadBalancer where
  "lrt_started = record_request_start lrt_absent ''b''"

text \<open>The scenario of the specification: \<open>a\<close> has the average 50, \<open>b\<close> has no entry.\<close>

definition lrt_fifty :: LoadBalancer where
  "lrt_fifty = update_service_metrics 0 (init_load_balancer LEAST_RESPONSE_TIME) ''a'' (avg_update 50)"

text \<open>A balancer whose entry for \<open>x\<close> was updated with a negative connection count.\<close>

definition negative_connections :: LoadBalancer where
  "negative_connections =
     update_service_metrics 0 (init_load_balancer ROUND_ROBIN) ''x'' (connections_update (- 3))"

text \<open>The same balancer after \<open>y\<close> was updated with the connection count 2.\<close>

definition mixed_connections :: LoadBalancer where
  "mixed_connections = update_service_metrics 0 negative_connections ''y'' (connections_update 2)"

text \<open>An update dictionary with the single key \<^verbatim>\<open>'error_rate'\<close>.\<close>

definition error_rate_update :: "real \<Rightarrow> MetricsUpdate" where
  "error_rate_update r =
     \<lparr> upd_connections = None, upd_total_requests = None, upd_avg_response_time = None,
       upd_cpu_usage = None, upd_memory_usage = None, upd_cognitive_load = None,
       upd_error_rate = Some r \<rparr>"

text \<open>
  A new balancer after one \<^verbatim>\<open>record_request_start\<close> for \<open>x\<close>: the entry of \<open>x\<close> has
  the error rate 0. And a balancer whose entry for \<open>x\<close> has the error rate
  \<open>5 * 2^(-1074)\<close>, five times the smallest positive binary64 number.
\<close>

definition one_request :: LoadBalancer where
  "one_request = record_request_start (init_load_balancer ROUND_ROBIN) ''x''"

definition tiny_error_rate :: LoadBalancer where
  "tiny_error_rate =
     update_service_metrics 0 (init_load_balancer ROUND_ROBIN) ''x''
       (error_rate_update (5 / 2 ^ 1074))"


text \<open>The balancer \<open>one_request\<close> after one failed request of \<open>x\<close>.\<close>

definition one_failure :: LoadBalancer where
  "one_failure = record_request_end one_request ''x'' 5000 False"

section \<open>Health monitor (health\_monitor.py)\<close>

datatype HealthStatus = HEALTHY | WARNING | CRITICAL | UNKNOWN

record HealthMetric =
  metric_name :: string
  metric_value :: real
  threshold_warning :: real
  threshold_critical :: real
  metric_unit :: string
  metric_description :: string

text \<open>
  An issue line of a report is a formatted string that embeds a number
  (\<^verbatim>\<open>f"High CPU usage: {value:.1f}%"\<close>). The number formatting is not modelled: an issue
  is its fixed text together with the number, or a plain string.
\<close>

datatype message = Formatted string real | Plain string

record HealthReport =
  report_status :: HealthStatus
  report_metrics :: "HealthMetric list"
  issues :: "message list"
  recommendations :: "string list"
  report_timestamp :: real

text \<open>
  \<^verbatim>\<open>self.thresholds\<close>: a dictionary from a metric name to its warning and critical
  threshold; the values of \<^verbatim>\<open>__init__\<close>, and \<^verbatim>\<open>set_threshold\<close>.
\<close>

record Threshold =
  warning :: real
  critical :: real

definition init_thresholds :: "string \<rightharpoonup> Threshold" where
  "init_thresholds =
     [ ''cpu_usage'' \<mapsto> \<lparr> warning = 70, critical = 90 \<rparr>,
       ''memory_usage'' \<mapsto> \<lparr> warning = 80, critical = 95 \<rparr>,
       ''response_time'' \<mapsto> \<lparr> warning = 1000, critical = 5000 \<rparr>,
       ''error_rate'' \<mapsto> \<lparr> warning = 5 / 100, critical = 1 / 10 \<rparr>,
       ''connection_count'' \<mapsto> \<lparr> warning = 100, critical = 200 \<rparr>,
       ''cognitive_load'' \<mapsto> \<lparr> warning = 8 / 10, critical = 95 / 100 \<rparr> ]"

definition set_threshold ::
  "(string \<rightharpoonup> Threshold) \<Rightarrow> string \<Rightarrow> real \<Rightarrow> real \<Rightarrow> (string \<rightharpoonup> Threshold)" where
  "set_threshold thresholds name w c = thresholds(name \<mapsto> \<lparr> warning = w, critical = c \<rparr>)"

text \<open>\<^verbatim>\<open>_evaluate_metric_status\<close>.\<close>

definition evaluate_metric_status :: "HealthMetric \<Rightarrow> HealthStatus" where
  "evaluate_metric_status metric =
     (if metric_value metric \<ge> threshold_critical metric then CRITICAL
      else if metric_value metric \<ge> threshold_warning metric then WARNING
      else HEALTHY)"

subsection \<open>The health check of one instance\<close>

text \<open>
  \<^verbatim>\<open>_check_service_health\<close> runs the same block five times, once per metric. A block is
  described by: the metric name (the key of \<^verbatim>\<open>thresholds\<close>), the key read from the
  metrics snapshot with \<^verbatim>\<open>.get(key, 0)\<close>, the unit, the description, the text of the
  critical issue, the recommendation added with it, and the text of the warning issue.
\<close>

record MetricSpec =
  spec_name :: string
  spec_key :: string
  spec_unit :: string
  spec_description :: string
  spec_high :: string
  spec_recommendation :: string
  spec_elevated :: string

definition metric_specs :: "MetricSpec list" where
  "metric_specs =
     [ \<lparr> spec_name = ''cpu_usage'', spec_key = ''cpu_usage'', spec_unit = ''%'',
         spec_description = ''CPU utilization'', spec_high = ''High CPU usage'',
         spec_recommendation = ''Consider scaling up or optimizing CPU-intensive operations'',
         spec_elevated = ''Elevated CPU usage'' \<rparr>,
       \<lparr> spec_name = ''memory_usage'', spec_key = ''memory_usage'', spec_unit = ''%'',
         spec_description = ''Memory utilization'', spec_high = ''High memory usage'',
         spec_recommendation = ''Consider increasing memory allocation or optimizing memory usage'',
         spec_elevated = ''Elevated memory usage'' \<rparr>,
       \<lparr> spec_name = ''response_time'', spec_key = ''avg_response_time'', spec_unit = ''ms'',
         spec_description = ''Average response time'', spec_high = ''High response time'',
         spec_recommendation = ''Investigate performance bottlenecks or scale horizontally'',
         spec_elevated = ''Elevated response time'' \<rparr>,
       \<lparr> spec_name = ''error_rate'', spec_key = ''error_rate'', spec_unit = ''%'',
         spec_description = ''Error rate'', spec_high = ''High error rate'',
         spec_recommendation = ''Investigate error causes and implement fixes'',
         spec_elevated = ''Elevated error rate'' \<rparr>,
       \<lparr> spec_name = ''cognitive_load'', spec_key = ''cognitive_load'', spec_unit = [],
         spec_description = ''Cognitive processing load'', spec_high = ''High cognitive load'',
         spec_recommendation = ''Reduce cognitive complexity or add more processing capacity'',
         spec_elevated = ''Elevated cognitive load'' \<rparr> ]"

text \<open>The local variables of \<^verbatim>\<open>_check_service_health\<close>.\<close>

record CheckState =
  acc_metrics :: "HealthMetric list"
  acc_issues :: "message list"
  acc_recommendations :: "string list"
  overall_status :: HealthStatus

definition init_check_state :: CheckState where
  "init_check_state =
     \<lparr> acc_metrics = [], acc_issues = [], acc_recommendations = [], overall_status = HEALTHY \<rparr>"

definition make_metric :: "MetricSpec \<Rightarrow> Threshold \<Rightarrow> (string \<rightharpoonup> real) \<Rightarrow> HealthMetric" where
  "make_metric spec th service_metrics =
     \<lparr> metric_name = spec_name spec,
       metric_value = dict_get (service_metrics (spec_key spec)) 0,
       threshold_warning = warning th,
       threshold_critical = critical th,
       metric_unit = spec_unit spec,
       metric_description = spec_description spec \<rparr>"

text \<open>
  One block. A metric name without thresholds raises \<^verbatim>\<open>KeyError\<close> before the metric is
  built; the result then carries the text of the exception, which is the name between
  single quotes (the character \<open>0x27\<close>), and the variables as they were.
\<close>

definition check_metric ::
  "(string \<rightharpoonup> Threshold) \<Rightarrow> (string \<rightharpoonup> real) \<Rightarrow> MetricSpec \<Rightarrow> CheckState
     \<Rightarrow> string option \<times> CheckState" where
  "check_metric thresholds service_metrics spec st =
     (case thresholds (spec_name spec) of
        None \<Rightarrow> (Some (CHR 0x27 # spec_name spec @ [CHR 0x27]), st)
      | Some th \<Rightarrow>
          (let metric = make_metric spec th service_metrics;
               st1 = st\<lparr> acc_metrics := acc_metrics st @ [metric] \<rparr>;
               s = evaluate_metric_status metric
           in if s = CRITICAL then
                (None, st1\<lparr> overall_status := CRITICAL,
                            acc_issues := acc_issues st1 @ [Formatted (spec_high spec) (metric_value metric)],
                            acc_recommendations := acc_recommendations st1 @ [spec_recommendation spec] \<rparr>)
              else if s = WARNING \<and> overall_status st1 \<noteq> CRITICAL then
                (None, st1\<lparr> overall_status := WARNING,
                            acc_issues := acc_issues st1 @ [Formatted (spec_elevated spec) (metric_value metric)] \<rparr>)
              else (None, st1)))"

text \<open>The blocks in sequence; an exception ends the sequence.\<close>

fun run_checks ::
  "(string \<rightharpoonup> Threshold) \<Rightarrow> (string \<rightharpoonup> real) \<Rightarrow> MetricSpec list \<Rightarrow> CheckState
     \<Rightarrow> string option \<times> CheckState" where
  "run_checks thresholds service_metrics [] st = (None, st)"
| "run_checks thresholds service_metrics (spec # rest) st =
     (case check_metric thresholds service_metrics spec st of
        (Some e, st') \<Rightarrow> (Some e, st')
      | (None, st') \<Rightarrow> run_checks thresholds service_metrics rest st')"

text \<open>
  \<^verbatim>\<open>_check_service_health\<close>. The metrics snapshot comes from \<^verbatim>\<open>_get_service_metrics\<close>,
  a random simulation in the source; here it is the argument \<open>probe\<close>, either the
  snapshot or the text of the exception the probe raised. Any exception inside the
  \<^verbatim>\<open>try\<close> sets the status to \<^verbatim>\<open>UNKNOWN\<close> and adds an issue; what the blocks had
  collected before stays in the report.
\<close>

definition check_service_health ::
  "real \<Rightarrow> (string \<rightharpoonup> Threshold) \<Rightarrow> string + (string \<rightharpoonup> real) \<Rightarrow> HealthReport" where
  "check_service_health now thresholds probe =
     (let (failure, st) =
            (case probe of
               Inl e \<Rightarrow> (Some e, init_check_state)
             | Inr service_metrics \<Rightarrow> run_checks thresholds service_metrics metric_specs init_check_state)
      in case failure of
           None \<Rightarrow>
             \<lparr> report_status = overall_status st, report_metrics = acc_metrics st,
               issues = acc_issues st, recommendations = acc_recommendations st,
               report_timestamp = now \<rparr>
         | Some e \<Rightarrow>
             \<lparr> report_status = UNKNOWN, report_metrics = acc_metrics st,
               issues = acc_issues st @ [Plain (''Health check failed: '' @ e)],
               recommendations = acc_recommendations st,
               report_timestamp = now \<rparr>)"

text \<open>
  The classification of one metric of a snapshot, and the worst of a list of
  classifications in the order critical, warning, healthy.
\<close>

definition metric_status_of ::
  "(string \<rightharpoonup> Threshold) \<Rightarrow> (string \<rightharpoonup> real) \<Rightarrow> MetricSpec \<Rightarrow> HealthStatus" where
  "metric_status_of thresholds service_metrics spec =
     (case thresholds (spec_name spec) of
        None \<Rightarrow> UNKNOWN
      | Some th \<Rightarrow> evaluate_metric_status (make_metric spec th service_metrics))"

definition worst_status :: "HealthStatus list \<Rightarrow> HealthStatus" where
  "worst_status sts =
     (if CRITICAL \<in> set sts then CRITICAL else if WARNING \<in> set sts then WARNING else HEALTHY)"

subsection \<open>The system report\<close>

text \<open>
  \<^verbatim>\<open>_update_system_health\<close> over the cached reports \<^verbatim>\<open>self.service_reports\<close>, a
  dictionary from identifier to report, here the list of its items. The result is the new
  \<^verbatim>\<open>self.system_report\<close>.
\<close>

definition status_count :: "(string \<times> HealthReport) list \<Rightarrow> HealthStatus \<Rightarrow> nat" where
  "status_count service_reports s =
     length (filter (\<lambda>item. report_status (snd item) = s) service_reports)"

definition update_system_health :: "real \<Rightarrow> (string \<times> HealthReport) list \<Rightarrow> HealthReport" where
  "update_system_health now service_reports =
     (if service_reports = [] then
        \<lparr> report_status = UNKNOWN, report_metrics = [], issues = [], recommendations = [],
          report_timestamp = now \<rparr>
      else
        (let total_services = length service_reports;
             n_healthy = status_count service_reports HEALTHY;
             n_warning = status_count service_reports WARNING;
             n_critical = status_count service_reports CRITICAL;
             n_unknown = status_count service_reports UNKNOWN;
             overall =
               (if n_critical > 0 then CRITICAL
                else if n_warning > 0 then WARNING
                else if n_unknown = total_services then UNKNOWN
                else HEALTHY);
             system_metrics =
               [ \<lparr> metric_name = ''services_healthy'', metric_value = real n_healthy,
                   threshold_warning = real total_services * (8 / 10),
                   threshold_critical = real total_services * (6 / 10),
                   metric_unit = ''count'', metric_description = ''Number of healthy services'' \<rparr>,
                 \<lparr> metric_name = ''services_warning'', metric_value = real n_warning,
                   threshold_warning = real total_services * (2 / 10),
                   threshold_critical = real total_services * (4 / 10),
                   metric_unit = ''count'',
                   metric_description = ''Number of services with warnings'' \<rparr>,
                 \<lparr> metric_name = ''services_critical'', metric_value = real n_critical,
                   threshold_warning = 1,
                   threshold_critical = real total_services * (3 / 10),
                   metric_unit = ''count'', metric_description = ''Number of critical services'' \<rparr> ]
         in \<lparr> report_status = overall,
              report_metrics = system_metrics,
              issues =
                (if n_critical > 0 then [Formatted ''services in critical state'' (real n_critical)] else [])
                @ (if n_warning > 0 then [Formatted ''services with warnings'' (real n_warning)] else []),
              recommendations =
                (if n_critical > 0 then [''Immediately investigate critical services''] else [])
                @ (if n_warning > 0 then [''Monitor warning services closely''] else []),
              report_timestamp = now \<rparr>))"

subsection \<open>Concrete snapshots and reports\<close>

text \<open>A snapshot in which only the error rate is past its critical threshold.\<close>

definition error_rate_snapshot :: "string \<rightharpoonup> real" where
  "error_rate_snapshot =
     [ ''cpu_usage'' \<mapsto> 10, ''memory_usage'' \<mapsto> 20, ''avg_response_time'' \<mapsto> 50,
       ''error_rate'' \<mapsto> 12 / 100, ''cognitive_load'' \<mapsto> 1 / 10 ]"

definition plain_report :: "HealthStatus \<Rightarrow> HealthReport" where
  "plain_report s =
     \<lparr> report_status = s, report_metrics = [], issues = [], recommendations = [],
       report_timestamp = 0 \<rparr>"

definition mixed_reports :: "(string \<times> HealthReport) list" where
  "mixed_reports =
     [(''a'', plain_report HEALTHY), (''b'', plain_report UNKNOWN), (''c'', plain_report WARNING)]"

text \<open>A snapshot in which only the CPU usage is past its warning threshold.\<close>

definition elevated_cpu_snapshot :: "string \<rightharpoonup> real" where
  "elevated_cpu_snapshot =
     [ ''cpu_usage'' \<mapsto> 75, ''memory_usage'' \<mapsto> 20, ''avg_response_time'' \<mapsto> 50,
       ''error_rate'' \<mapsto> 1 / 100, ''cognitive_load'' \<mapsto> 1 / 10 ]"

section \<open>Orchestrator (orchestrator.py)\<close>

text \<open>The values of a \<^verbatim>\<open>Dict[str, Any]\<close>, as far as the source builds them.\<close>

datatype pyval =
  PNone | PBool bool | PInt int | PFloat real | PStr string
  | PList "pyval list" | PDict "(string \<times> pyval) list"

record CognitiveRequest =
  request_id :: string
  request_type :: string
  content :: string
  request_context :: "(string \<times> pyval) list"
  priority :: int
  complexity :: real
  required_services :: "ServiceType list"
  request_timestamp :: real

record CognitiveResponse =
  response_request_id :: string
  response_status :: string
  result :: "string \<rightharpoonup> pyval"
  processing_time :: real
  services_used :: "string list"
  confidence :: pyval
  errors :: "string list"

text \<open>\<^verbatim>\<open>self.processing_stats\<close>. The counters start at 0 and are only incremented.\<close>

record ProcessingStats =
  stats_total_requests :: nat
  successful_requests :: nat
  failed_requests :: nat
  average_processing_time :: real

text \<open>
  The state of a \<^verbatim>\<open>CognitiveOrchestrator\<close>: its service manager, its load balancer
  together with the service manager the balancer itself refers to (optional in the
  constructor of the balancer), the active requests and the statistics.
\<close>

record Orchestrator =
  orch_service_manager :: ServiceManager
  orch_load_balancer :: LoadBalancer
  balancer_service_manager :: "ServiceManager option"
  active_requests :: "string \<rightharpoonup> CognitiveRequest"
  processing_stats :: ProcessingStats

definition service_type_value :: "ServiceType \<Rightarrow> string" where
  "service_type_value ty =
     (case ty of
        RELEVANCE \<Rightarrow> ''relevance'' | WISDOM \<Rightarrow> ''wisdom'' | RATIONALITY \<Rightarrow> ''rationality''
      | PHENOMENOLOGY \<Rightarrow> ''phenomenology'' | MEANING_MAKING \<Rightarrow> ''meaning_making''
      | INTEGRATION \<Rightarrow> ''integration'' | SILICON_SAGE \<Rightarrow> ''silicon_sage'')"

text \<open>\<^verbatim>\<open>_determine_required_services\<close>.\<close>

definition determine_required_services :: "CognitiveRequest \<Rightarrow> ServiceType list" where
  "determine_required_services request =
     (let required =
            (if request_type request = ''relevance_analysis'' then [RELEVANCE]
             else if request_type request = ''wisdom_evaluation'' then [WISDOM]
             else if request_type request = ''rational_analysis'' then [RATIONALITY]
             else if request_type request = ''phenomenological_processing'' then [PHENOMENOLOGY]
             else if request_type request = ''meaning_making'' then [MEANING_MAKING]
             else if request_type request = ''integration'' then [INTEGRATION]
             else if request_type request = ''silicon_sage_advice'' then [SILICON_SAGE]
             else if request_type request = ''comprehensive_analysis''
               then [RELEVANCE, WISDOM, RATIONALITY, MEANING_MAKING, INTEGRATION]
             else [SILICON_SAGE])
      in if complexity request > 7 / 10 \<and> INTEGRATION \<notin> set required
         then required @ [INTEGRATION] else required)"

text \<open>
  \<^verbatim>\<open>_plan_processing_pipeline\<close>: one call of the balancer per required service, in
  order. The context given to the balancer holds the complexity and the priority (and
  the request type, a string that the balancer never reads and that is left out here).
  \<^verbatim>\<open>if instance_id:\<close> drops both \<^verbatim>\<open>None\<close> and the empty string.
\<close>

fun plan_loop ::
  "ServiceManager option \<Rightarrow> CognitiveRequest \<Rightarrow> LoadBalancer \<Rightarrow> string list \<Rightarrow> ServiceType list
     \<Rightarrow> string list \<times> LoadBalancer" where
  "plan_loop bsm request lb pipeline [] = (pipeline, lb)"
| "plan_loop bsm request lb pipeline (ty # rest) =
     (let lb_context = [(''complexity'', complexity request),
                        (''priority'', real_of_int (priority request))];
          (selected, lb') = select_service_instance lb bsm ty (Some lb_context)
      in case selected of
           None \<Rightarrow> plan_loop bsm request lb' pipeline rest
         | Some iid \<Rightarrow>
             if iid \<noteq> [] then plan_loop bsm request lb' (pipeline @ [iid]) rest
             else plan_loop bsm request lb' pipeline rest)"

definition plan_processing_pipeline ::
  "ServiceManager option \<Rightarrow> LoadBalancer \<Rightarrow> CognitiveRequest \<Rightarrow> string list \<times> LoadBalancer" where
  "plan_processing_pipeline bsm lb request = plan_loop bsm request lb [] (required_services request)"

text \<open>
  The processing capability behind \<^verbatim>\<open>_process_with_service\<close>: given the service type,
  the content, the context and the intermediate results, it either raises (\<open>Inl\<close>, with
  the text of the exception) or returns the time it took in milliseconds and a result
  dictionary (\<open>Inr\<close>).
\<close>

type_synonym capability =
  "ServiceType \<Rightarrow> string \<Rightarrow> (string \<times> pyval) list \<Rightarrow> (string \<rightharpoonup> (string \<rightharpoonup> pyval))
     \<Rightarrow> string + (real \<times> (string \<rightharpoonup> pyval))"

text \<open>
  One pass of the loop of \<^verbatim>\<open>_execute_pipeline\<close> for the identifier \<open>iid\<close>, on the
  balancer, the aggregate result and the intermediate results. An identifier that the
  service manager does not know is skipped. Otherwise the request start is recorded and
  the capability is called; on return the request end is recorded with the elapsed time
  and success, and the result is merged into the aggregate (\<^verbatim>\<open>result.update\<close>); on an
  exception the request end is recorded with 5000 and failure, and the loop continues.
\<close>

definition execute_step ::
  "capability \<Rightarrow> ServiceManager \<Rightarrow> CognitiveRequest
     \<Rightarrow> LoadBalancer \<times> (string \<rightharpoonup> pyval) \<times> (string \<rightharpoonup> (string \<rightharpoonup> pyval)) \<Rightarrow> string
     \<Rightarrow> LoadBalancer \<times> (string \<rightharpoonup> pyval) \<times> (string \<rightharpoonup> (string \<rightharpoonup> pyval))" where
  "execute_step cap sm request st iid =
     (case st of (lb, res, intermediate_results) \<Rightarrow>
        (case services sm iid of
           None \<Rightarrow> (lb, res, intermediate_results)
         | Some instance \<Rightarrow>
             (let ty = service_type (config instance);
                  lb1 = record_request_start lb iid
              in case cap ty (content request) (request_context request) intermediate_results of
                   Inr (elapsed_ms, service_result) \<Rightarrow>
                     (record_request_end lb1 iid elapsed_ms True,
                      res ++ service_result,
                      intermediate_results(service_type_value ty \<mapsto> service_result))
                 | Inl e \<Rightarrow>
                     (record_request_end lb1 iid 5000 False, res, intermediate_results))))"

definition execute_pipeline ::
  "capability \<Rightarrow> ServiceManager \<Rightarrow> LoadBalancer \<Rightarrow> CognitiveRequest \<Rightarrow> string list
     \<Rightarrow> (string \<rightharpoonup> pyval) \<times> LoadBalancer" where
  "execute_pipeline cap sm lb request pipeline =
     (case foldl (execute_step cap sm request) (lb, Map.empty, Map.empty) pipeline of
        (lb', res, intermediate_results) \<Rightarrow> (res, lb'))"

text \<open>
  \<^verbatim>\<open>_update_average_processing_time\<close>. It is called after the total was incremented, so
  the divisor is at least 1.
\<close>

definition update_average_processing_time :: "ProcessingStats \<Rightarrow> real \<Rightarrow> ProcessingStats" where
  "update_average_processing_time stats t =
     (let total = real (stats_total_requests stats);
          current_avg = average_processing_time stats
      in stats\<lparr> average_processing_time :=
           round_double (round_double (round_double (current_avg * (total - 1)) + t) / total) \<rparr>)"

text \<open>
  The first statement of the \<^verbatim>\<open>try\<close> block of \<^verbatim>\<open>process_request\<close>: a request without
  required services gets those determined from its type.
\<close>

definition with_required_services :: "CognitiveRequest \<Rightarrow> CognitiveRequest" where
  "with_required_services request =
     (if required_services request = []
      then request\<lparr> required_services := determine_required_services request \<rparr>
      else request)"

text \<open>
  \<^verbatim>\<open>process_request\<close>. The time between the two readings of the clock is the argument
  \<open>elapsed\<close>. Planning and execution as modelled here raise nothing (a failure of the
  capability is caught inside the loop), so the outer \<^verbatim>\<open>except\<close> branch, which builds
  the response with the status \<^verbatim>\<open>"error"\<close>, has no counterpart. The response of the
  \<^verbatim>\<open>try\<close> branch is constructed without an \<^verbatim>\<open>errors\<close> argument, and
  \<^verbatim>\<open>__post_init__\<close> turns the missing list into the empty list.
\<close>

definition process_request ::
  "capability \<Rightarrow> real \<Rightarrow> Orchestrator \<Rightarrow> CognitiveRequest \<Rightarrow> CognitiveResponse \<times> Orchestrator" where
  "process_request cap elapsed orch request0 =
     (let stats1 = (processing_stats orch)
            \<lparr> stats_total_requests := stats_total_requests (processing_stats orch) + 1 \<rparr>;
          request = with_required_services request0;
          (pipeline, lb1) =
            plan_processing_pipeline (balancer_service_manager orch) (orch_load_balancer orch) request;
          (res, lb2) = execute_pipeline cap (orch_service_manager orch) lb1 request pipeline;
          response =
            \<lparr> response_request_id = request_id request,
              response_status = ''success'',
              result = res,
              processing_time = elapsed,
              services_used = pipeline,
              confidence = dict_get (res ''confidence'') (PFloat (8 / 10)),
              errors = [] \<rparr>;
          stats2 = update_average_processing_time
                     (stats1\<lparr> successful_requests := successful_requests stats1 + 1 \<rparr>) elapsed
      in (response,
          orch\<lparr> orch_load_balancer := lb2,
                processing_stats := stats2,
                active_requests := (active_requests orch)(request_id request := None) \<rparr>))"

subsection \<open>What each step of a pipeline did\<close>

text \<open>
  The outcome of every step of a pipeline, in order: skipped (unknown identifier),
  succeeded with an elapsed time and a result, or failed with the text of the exception.
  The capability sees the intermediate results of the steps that succeeded before.
\<close>

datatype outcome = Skipped | Succeeded real "string \<rightharpoonup> pyval" | Failed string

fun outcomes ::
  "capability \<Rightarrow> ServiceManager \<Rightarrow> CognitiveRequest \<Rightarrow> (string \<rightharpoonup> (string \<rightharpoonup> pyval))
     \<Rightarrow> string list \<Rightarrow> (string \<times> outcome) list" where
  "outcomes cap sm request intermediate_results [] = []"
| "outcomes cap sm request intermediate_results (iid # rest) =
     (case services sm iid of
        None \<Rightarrow> (iid, Skipped) # outcomes cap sm request intermediate_results rest
      | Some instance \<Rightarrow>
          (case cap (service_type (config instance)) (content request) (request_context request)
                  intermediate_results of
             Inr (elapsed_ms, service_result) \<Rightarrow>
               (iid, Succeeded elapsed_ms service_result)
               # outcomes cap sm request
                   (intermediate_results
                      (service_type_value (service_type (config instance)) \<mapsto> service_result))
                   rest
           | Inl e \<Rightarrow> (iid, Failed e) # outcomes cap sm request intermediate_results rest))"

fun successful_results :: "(string \<times> outcome) list \<Rightarrow> (string \<rightharpoonup> pyval) list" where
  "successful_results [] = []"
| "successful_results ((iid, Succeeded elapsed_ms r) # rest) = r # successful_results rest"
| "successful_results ((iid, other) # rest) = successful_results rest"

fun failed_steps :: "(string \<times> outcome) list \<Rightarrow> string list" where
  "failed_steps [] = []"
| "failed_steps ((iid, Failed e) # rest) = iid # failed_steps rest"
| "failed_steps ((iid, other) # rest) = failed_steps rest"

text \<open>The merge of a list of result dictionaries: later entries overwrite earlier ones.\<close>

definition merge_results :: "(string \<rightharpoonup> pyval) list \<Rightarrow> (string \<rightharpoonup> pyval)" where
  "merge_results rs = foldl (++) Map.empty rs"

text \<open>
  The samples that a list of outcomes stands for: a request start and a request end
  with the elapsed time and success for a step that succeeded, a request start and a
  request end with 5000 and failure for a step that failed, nothing for a skipped step.
\<close>

fun record_sample :: "LoadBalancer \<Rightarrow> string \<times> outcome \<Rightarrow> LoadBalancer" where
  "record_sample lb (iid, Skipped) = lb"
| "record_sample lb (iid, Succeeded elapsed_ms r) =
     record_request_end (record_request_start lb iid) iid elapsed_ms True"
| "record_sample lb (iid, Failed e) =
     record_request_end (record_request_start lb iid) iid 5000 False"

subsection \<open>A concrete request with one failing step\<close>

definition relevance_result :: "string \<rightharpoonup> pyval" where
  "relevance_result =
     [ ''relevance_scores'' \<mapsto> PDict [(''key_concept_1'', PFloat (8 / 10)), (''key_concept_2'', PFloat (6 / 10))],
       ''salience_weights'' \<mapsto> PDict [(''attention'', PFloat (7 / 10)), (''working_memory'', PFloat (5 / 10))] ]"

text \<open>
  A capability that answers for the relevance service as the simulation of the source
  does (after 12 milliseconds) and raises for every other service type.
\<close>

definition relevance_only :: capability where
  "relevance_only ty text ctx intermediate_results =
     (if ty = RELEVANCE then Inr (12, relevance_result) else Inl ''service unavailable'')"

definition two_services :: ServiceManager where
  "two_services =
     \<lparr> services = [ ''r1'' \<mapsto> running_healthy RELEVANCE ''r1'', ''w1'' \<mapsto> running_healthy WISDOM ''w1'' ],
       service_registry =
         (\<lambda>t. if t = RELEVANCE then [''r1''] else if t = WISDOM then [''w1''] else []) \<rparr>"

definition two_services_orchestrator :: Orchestrator where
  "two_services_orchestrator =
     \<lparr> orch_service_manager = two_services,
       orch_load_balancer = init_load_balancer ROUND_ROBIN,
       balancer_service_manager = Some two_services,
       active_requests = Map.empty,
       processing_stats = \<lparr> stats_total_requests = 0, successful_requests = 0,
                            failed_requests = 0, average_processing_time = 0 \<rparr> \<rparr>"

definition two_step_request :: CognitiveRequest where
  "two_step_request =
     \<lparr> request_id = ''req-1'', request_type = ''custom'', content = ''hello'',
       request_context = [], priority = 1, complexity = 1 / 2,
       required_services = [RELEVANCE, WISDOM], request_timestamp = 0 \<rparr>"

section \<open>Properties of the service manager\<close>


subsection \<open>Registration\<close>

text \<open>
  Claim C1, as stated: a registration whose identifier is already registered is
  rejected, the stored instance and the list of the type stay as they were, and no second
  entry appears. The source does not do this. In \<open>duplicate_scenario\<close> the identifier
  \<open>svc\<close> is registered and running; registering it again replaces the running instance
  by a fresh \<open>STOPPED\<close> one and the list of its type then holds the identifier twice.
\<close>

theorem register_service_duplicate_counterexample:
  "map_option status (services (fst duplicate_scenario) ''svc'') = Some RUNNING
   \<and> service_registry (fst duplicate_scenario) RELEVANCE = [''svc'']
   \<and> map_option status (services (snd duplicate_scenario) ''svc'') = Some STOPPED
   \<and> services (snd duplicate_scenario) ''svc'' \<noteq> services (fst duplicate_scenario) ''svc''
   \<and> service_registry (snd duplicate_scenario) RELEVANCE = [''svc'', ''svc'']"
  by (simp add: duplicate_scenario_def register_service_def start_service_def Let_def
      default_config_def init_service_manager_def new_instance_def check_dependencies_def
      start_service_process_def)

text \<open>
  Claim C1, amended: \<open>register_service\<close> makes no duplicate check. For every
  configuration, registered before or not, it returns the identifier of the
  configuration, stores under it a new instance of that configuration with status
  \<open>STOPPED\<close> (replacing whatever was stored there), leaves every other identifier
  alone, appends the identifier to the list of the configuration's type (so the
  identifier occurs there once more than before) and leaves the lists of the other types
  alone. In particular a registration with a fresh identifier stores the instance as
  \<open>STOPPED\<close>.
\<close>

theorem register_service_no_duplicate_check:
  assumes reg: "register_service sm cfg = (iid, sm')"
  shows "iid = instance_id cfg
       \<and> services sm' iid = Some (new_instance cfg)
       \<and> map_option status (services sm' iid) = Some STOPPED
       \<and> (\<forall>j. j \<noteq> iid \<longrightarrow> services sm' j = services sm j)
       \<and> service_registry sm' (service_type cfg) = service_registry sm (service_type cfg) @ [iid]
       \<and> (\<forall>ty. ty \<noteq> service_type cfg \<longrightarrow> service_registry sm' ty = service_registry sm ty)
       \<and> count_list (service_registry sm' (service_type cfg)) iid
           = count_list (service_registry sm (service_type cfg)) iid + 1"
  using reg by (auto simp: register_service_def Let_def new_instance_def)

theorem register_service_no_duplicate_check_witness:
  "register_service init_service_manager (default_config WISDOM ''w1'')
     = (''w1'', snd (register_service init_service_manager (default_config WISDOM ''w1'')))
   \<and> map_option status
        (services (snd (register_service init_service_manager (default_config WISDOM ''w1''))) ''w1'')
       = Some STOPPED
   \<and> service_registry (snd (register_service init_service_manager (default_config WISDOM ''w1''))) WISDOM
       = [''w1'']"
proof -
  have r: "register_service init_service_manager (default_config WISDOM ''w1'')
     = (''w1'', snd (register_service init_service_manager (default_config WISDOM ''w1'')))"
    by (simp add: register_service_def Let_def default_config_def)
  show ?thesis
    using register_service_no_duplicate_check [OF r] r
    by (simp add: default_config_def init_service_manager_def new_instance_def)
qed

subsection \<open>Dependency gate of start\<close>




section \<open>Properties of the rounding\<close>

subsection \<open>Rounding to an integer, binades\<close>

lemma rne_of_int: "rne (of_int n) = n"
  by (simp add: rne_def)

lemma rne_cases: "rne y = \<lfloor>y\<rfloor> \<or> rne y = \<lfloor>y\<rfloor> + 1"
  by (simp add: rne_def Let_def)

lemma rne_mono: "y \<le> z \<Longrightarrow> rne y \<le> rne z"
proof (cases "\<lfloor>y\<rfloor> = \<lfloor>z\<rfloor>")
  case True
  assume "y \<le> z"
  then show ?thesis using True by (auto simp: rne_def Let_def)
next
  case False
  assume "y \<le> z"
  then have "\<lfloor>y\<rfloor> \<le> \<lfloor>z\<rfloor>" by (rule floor_mono)
  then have "\<lfloor>y\<rfloor> + 1 \<le> \<lfloor>z\<rfloor>" using False by simp
  moreover have "rne y \<le> \<lfloor>y\<rfloor> + 1" using rne_cases [of y] by auto
  moreover have "\<lfloor>z\<rfloor> \<le> rne z" using rne_cases [of z] by auto
  ultimately show ?thesis by simp
qed

lemma rne_close: "\<bar>of_int (rne y) - y\<bar> \<le> 1 / 2"
proof -
  have "of_int \<lfloor>y\<rfloor> \<le> y" "y < of_int \<lfloor>y\<rfloor> + 1" by linarith+
  then show ?thesis by (auto simp: rne_def Let_def abs_le_iff)
qed

lemma binade_ge: "- 1022 \<le> binade x"
  by (simp add: binade_def)

lemma binade_upper:
  assumes "0 < x"
  shows "x < 2 powr real_of_int (binade x + 1)"
proof -
  have "x < 2 powr real_of_int (\<lfloor>log 2 x\<rfloor> + 1)"
    using floor_log_eq_powr_iff [of x 2 "\<lfloor>log 2 x\<rfloor>"] assms by simp
  also have "\<dots> \<le> 2 powr real_of_int (binade x + 1)"
    by (simp add: binade_def)
  finally show ?thesis .
qed

lemma binade_lower:
  assumes "0 < x" "- 1022 < binade x"
  shows "2 powr real_of_int (binade x) \<le> x"
proof -
  have "binade x = \<lfloor>log 2 x\<rfloor>" using assms(2) by (simp add: binade_def max_def split: if_splits)
  then show ?thesis
    using floor_log_eq_powr_iff [of x 2 "\<lfloor>log 2 x\<rfloor>"] assms(1) by simp
qed

lemma binade_eq:
  assumes "0 < x" "- 1022 \<le> e" "2 powr real_of_int e \<le> x" "x < 2 powr real_of_int (e + 1)"
  shows "binade x = e"
proof -
  have "\<lfloor>log 2 x\<rfloor> = e"
    using floor_log_eq_powr_iff [of x 2 e] assms by simp
  then show ?thesis using assms(2) by (simp add: binade_def)
qed

lemma binade_le:
  assumes "0 < x" "- 1022 \<le> e" "x < 2 powr real_of_int (e + 1)"
  shows "binade x \<le> e"
proof (rule ccontr)
  assume "\<not> binade x \<le> e"
  then have gt: "e + 1 \<le> binade x" by simp
  then have "- 1022 < binade x" using assms(2) by simp
  then have "2 powr real_of_int (binade x) \<le> x" using assms(1) by (rule binade_lower [rotated])
  moreover have "2 powr real_of_int (e + 1) \<le> 2 powr real_of_int (binade x)"
    using gt by (simp del: of_int_add)
  ultimately show False using assms(3) by simp
qed

lemma binade_subnormal:
  assumes "0 < x" "x < 2 powr (- 1022)"
  shows "binade x = - 1022"
proof -
  have "2 powr real_of_int \<lfloor>log 2 x\<rfloor> \<le> x"
    using floor_log_eq_powr_iff [of x 2 "\<lfloor>log 2 x\<rfloor>"] assms(1) by simp
  then have "2 powr real_of_int \<lfloor>log 2 x\<rfloor> < 2 powr (- 1022)"
    using assms(2) by (rule le_less_trans)
  then have "real_of_int \<lfloor>log 2 x\<rfloor> < - 1022"
    by (rule powr_less_cancel) simp
  then have "\<lfloor>log 2 x\<rfloor> < - 1022" by linarith
  then show ?thesis by (simp add: binade_def)
qed

lemma binade_mono:
  assumes "0 < x" "x \<le> y"
  shows "binade x \<le> binade y"
proof -
  have "log 2 x \<le> log 2 y" using assms by simp
  then have "\<lfloor>log 2 x\<rfloor> \<le> \<lfloor>log 2 y\<rfloor>" by (rule floor_mono)
  then show ?thesis by (simp add: binade_def)
qed

lemma quantum_pos: "0 < quantum x"
  by (simp add: quantum_def)

lemma quantum_scale: "quantum x * 2 ^ 53 = 2 powr real_of_int (binade x + 1)"
proof -
  have "(2::real) ^ 53 = 2 powr 53" by simp
  then have "quantum x * 2 ^ 53 = 2 powr (real_of_int (binade x) - 52 + 53)"
    unfolding quantum_def by (simp only: powr_add)
  then show ?thesis by (simp add: algebra_simps)
qed

lemma quantum_scale52: "quantum x * 2 ^ 52 = 2 powr real_of_int (binade x)"
proof -
  have "(2::real) ^ 52 = 2 powr 52" by simp
  then have "quantum x * 2 ^ 52 = 2 powr (real_of_int (binade x) - 52 + 52)"
    unfolding quantum_def by (simp only: powr_add)
  then show ?thesis by simp
qed

subsection \<open>Monotonicity, error bound, idempotence\<close>

lemma round_double_zero: "round_double 0 = 0"
  by (simp add: round_double_def)

lemma round_double_pos:
  "0 < x \<Longrightarrow> round_double x = quantum x * of_int (rne (x / quantum x))"
  by (simp add: round_double_def)

lemma scaled_upper:
  assumes "0 < x"
  shows "x / quantum x < 2 ^ 53"
proof -
  have "x < quantum x * 2 ^ 53"
    using binade_upper [OF assms] by (simp only: quantum_scale)
  then show ?thesis using quantum_pos [of x] by (simp add: field_simps)
qed

lemma scaled_lower:
  assumes "2 powr real_of_int (binade x) \<le> x"
  shows "2 ^ 52 \<le> x / quantum x"
proof -
  have "quantum x * 2 ^ 52 \<le> x" using assms by (simp only: quantum_scale52)
  then show ?thesis using quantum_pos [of x] by (simp add: field_simps)
qed

lemma rne_scaled_upper:
  assumes "0 < x"
  shows "rne (x / quantum x) \<le> 2 ^ 53"
proof -
  have "rne (x / quantum x) \<le> rne (of_int (2 ^ 53))"
    using scaled_upper [OF assms] by (intro rne_mono) simp
  then show ?thesis by (simp only: rne_of_int)
qed

lemma rne_scaled_lower:
  assumes "2 powr real_of_int (binade x) \<le> x"
  shows "2 ^ 52 \<le> rne (x / quantum x)"
proof -
  have "rne (of_int (2 ^ 52)) \<le> rne (x / quantum x)"
    using scaled_lower [OF assms] by (intro rne_mono) simp
  then show ?thesis by (simp only: rne_of_int)
qed

lemma rne_nonneg: "0 \<le> y \<Longrightarrow> 0 \<le> rne y"
  using rne_mono [of "of_int 0" y] by (simp add: rne_of_int del: of_int_0)

lemma round_double_nonneg: "0 \<le> x \<Longrightarrow> 0 \<le> round_double x"
proof (cases "x = 0")
  case True
  then show ?thesis by (simp add: round_double_zero)
next
  case False
  assume "0 \<le> x"
  then have pos: "0 < x" using False by simp
  have "0 \<le> rne (x / quantum x)"
    using pos quantum_pos [of x] by (intro rne_nonneg) simp
  then show ?thesis using pos quantum_pos [of x] by (simp add: round_double_pos)
qed

lemma round_double_upper:
  assumes "0 < x"
  shows "round_double x \<le> 2 powr real_of_int (binade x + 1)"
proof -
  have "real_of_int (rne (x / quantum x)) \<le> real_of_int (2 ^ 53)"
    using rne_scaled_upper [OF assms] by (simp only: of_int_le_iff)
  then have "quantum x * real_of_int (rne (x / quantum x)) \<le> quantum x * 2 ^ 53"
    using quantum_pos [of x] by simp
  then show ?thesis using assms by (simp only: round_double_pos quantum_scale)
qed

lemma round_double_lower:
  assumes "0 < x" "2 powr real_of_int (binade x) \<le> x"
  shows "2 powr real_of_int (binade x) \<le> round_double x"
proof -
  have "real_of_int (2 ^ 52) \<le> real_of_int (rne (x / quantum x))"
    using rne_scaled_lower [OF assms(2)] by (simp only: of_int_le_iff)
  then have "quantum x * 2 ^ 52 \<le> quantum x * real_of_int (rne (x / quantum x))"
    using quantum_pos [of x] by simp
  then show ?thesis using assms(1) by (simp only: round_double_pos quantum_scale52)
qed

lemma round_double_mono:
  assumes "0 \<le> x" "x \<le> y"
  shows "round_double x \<le> round_double y"
proof (cases "x = 0")
  case True
  then show ?thesis using assms round_double_nonneg [of y] by (simp add: round_double_zero)
next
  case False
  then have x: "0 < x" and y: "0 < y" using assms by simp_all
  have le: "binade x \<le> binade y" using x assms(2) by (rule binade_mono)
  show ?thesis
  proof (cases "binade x = binade y")
    case True
    then have q: "quantum y = quantum x" by (simp add: quantum_def)
    have "x / quantum x \<le> y / quantum x"
      using assms(2) quantum_pos [of x] by (simp add: divide_right_mono)
    then have "rne (x / quantum x) \<le> rne (y / quantum x)" by (rule rne_mono)
    then have "quantum x * real_of_int (rne (x / quantum x))
        \<le> quantum x * real_of_int (rne (y / quantum x))"
      using quantum_pos [of x] by simp
    then show ?thesis using x y by (simp add: round_double_pos q)
  next
    case False
    then have lt: "binade x + 1 \<le> binade y" using le by simp
    then have "- 1022 < binade y" using binade_ge [of x] by simp
    then have low: "2 powr real_of_int (binade y) \<le> y" using y by (rule binade_lower [rotated])
    have "round_double x \<le> 2 powr real_of_int (binade x + 1)"
      using x by (rule round_double_upper)
    also have "\<dots> \<le> 2 powr real_of_int (binade y)"
      using lt by (simp del: of_int_add)
    also have "\<dots> \<le> round_double y" using y low by (rule round_double_lower)
    finally show ?thesis .
  qed
qed

lemma round_double_error:
  assumes "0 < x"
  shows "\<bar>round_double x - x\<bar> \<le> quantum x / 2"
proof -
  have "\<bar>real_of_int (rne (x / quantum x)) - x / quantum x\<bar> \<le> 1 / 2" by (rule rne_close)
  then have "quantum x * \<bar>real_of_int (rne (x / quantum x)) - x / quantum x\<bar> \<le> quantum x * (1 / 2)"
    using quantum_pos [of x] by (simp only: mult_le_cancel_left_pos)
  moreover have "quantum x * \<bar>real_of_int (rne (x / quantum x)) - x / quantum x\<bar>
      = \<bar>quantum x * real_of_int (rne (x / quantum x)) - x\<bar>"
  proof -
    have "quantum x * real_of_int (rne (x / quantum x)) - x
        = quantum x * (real_of_int (rne (x / quantum x)) - x / quantum x)"
      using quantum_pos [of x] by (simp add: field_simps)
    then show ?thesis
      using quantum_pos [of x] by (simp add: abs_mult)
  qed
  ultimately show ?thesis using assms by (simp add: round_double_pos)
qed

lemma round_double_grid:
  assumes "0 < v" "v = quantum v * real_of_int m"
  shows "round_double v = v"
proof -
  have "v / quantum v = real_of_int m"
    using assms(2) quantum_pos [of v] by (simp add: field_simps)
  then have "rne (v / quantum v) = m" by (simp only: rne_of_int)
  then show ?thesis using assms by (simp add: round_double_pos)
qed

lemma quantum_of_binade: "binade v = binade x \<Longrightarrow> quantum v = quantum x"
  by (simp add: quantum_def)

lemma quantum_next: "binade v = binade x + 1 \<Longrightarrow> quantum v = 2 * quantum x"
proof -
  assume "binade v = binade x + 1"
  then have "quantum v = 2 powr (1 + (real_of_int (binade x) - 52))"
    by (simp add: quantum_def algebra_simps)
  then show ?thesis unfolding quantum_def by (simp only: powr_add) simp
qed

lemma round_double_idem:
  assumes "0 \<le> x"
  shows "round_double (round_double x) = round_double x"
proof (cases "round_double x = 0")
  case True
  then show ?thesis by (simp add: round_double_zero)
next
  case False
  then have x: "0 < x" using assms by (cases "x = 0") (simp_all add: round_double_zero)
  let ?n = "rne (x / quantum x)"
  let ?v = "round_double x"
  have v: "?v = quantum x * real_of_int ?n" using x by (rule round_double_pos)
  have vpos: "0 < ?v" using False round_double_nonneg [OF assms] by simp
  have n_le: "?n \<le> 2 ^ 53" using x by (rule rne_scaled_upper)
  show ?thesis
  proof (cases "?n = 2 ^ 53")
    case True
    then have "?v = quantum x * 2 ^ 53" using v by simp
    then have v2: "?v = 2 powr real_of_int (binade x + 1)" by (simp only: quantum_scale)
    have "binade ?v = binade x + 1"
    proof (rule binade_eq)
      show "0 < ?v" by (rule vpos)
      show "- 1022 \<le> binade x + 1" using binade_ge [of x] by simp
      show "2 powr real_of_int (binade x + 1) \<le> ?v" using v2 by simp
      show "?v < 2 powr real_of_int (binade x + 1 + 1)"
        unfolding v2 by (simp del: of_int_add)
    qed
    then have "quantum ?v = 2 * quantum x" by (rule quantum_next)
    then have "?v = quantum ?v * real_of_int (2 ^ 52)"
      using \<open>?v = quantum x * 2 ^ 53\<close> by simp
    with vpos show ?thesis by (rule round_double_grid)
  next
    case False
    then have "?n \<le> 2 ^ 53 - 1" using n_le by simp
    then have "real_of_int ?n \<le> real_of_int (2 ^ 53 - 1)" by (simp only: of_int_le_iff)
    then have "real_of_int ?n < 2 ^ 53" by simp
    then have "?v < quantum x * 2 ^ 53"
      unfolding v using quantum_pos [of x] by simp
    then have vlt: "?v < 2 powr real_of_int (binade x + 1)" by (simp only: quantum_scale)
    have up: "binade ?v \<le> binade x"
      using vpos binade_ge [of x] vlt by (rule binade_le)
    have down: "binade x \<le> binade ?v"
    proof (cases "- 1022 < binade x")
      case True
      then have low: "2 powr real_of_int (binade x) \<le> x" using x by (rule binade_lower [rotated])
      have lowv: "2 powr real_of_int (binade x) \<le> ?v" using x low by (rule round_double_lower)
      have "binade (2 powr real_of_int (binade x)) = binade x"
        by (rule binade_eq) (simp_all add: binade_ge del: of_int_add)
      moreover have "binade (2 powr real_of_int (binade x)) \<le> binade ?v"
        using lowv by (intro binade_mono) simp_all
      ultimately show ?thesis by simp
    next
      case False
      then have "binade x = - 1022" using binade_ge [of x] by simp
      then show ?thesis using binade_ge [of ?v] by simp
    qed
    have "binade ?v = binade x" using up down by simp
    then have "quantum ?v = quantum x" by (rule quantum_of_binade)
    then have "?v = quantum ?v * real_of_int ?n" using v by simp
    with vpos show ?thesis by (rule round_double_grid)
  qed
qed

lemma is_double_round: "0 \<le> x \<Longrightarrow> is_double (round_double x)"
  by (simp add: is_double_def round_double_idem)

lemma round_double_in_binade:
  assumes "0 < x" "- 1022 \<le> e" "2 powr real_of_int e \<le> x" "x < 2 powr real_of_int (e + 1)"
  shows "round_double x = 2 powr (real_of_int e - 52) * real_of_int (rne (x / 2 powr (real_of_int e - 52)))"
proof -
  have "binade x = e" using assms by (rule binade_eq)
  then have "quantum x = 2 powr (real_of_int e - 52)" by (simp add: quantum_def)
  then show ?thesis using assms(1) by (simp add: round_double_pos)
qed

subsection \<open>Evaluation in a given binade\<close>

lemma pow2_minus: "2 powr (- real n) = 1 / 2 ^ n"
  by (simp add: powr_minus powr_realpow divide_inverse)

lemma round_double_small:
  assumes "1 / 2 ^ (k + 1) \<le> x" "x < 1 / 2 ^ k" "k \<le> 1021"
  shows "round_double x = real_of_int (rne (x * 2 ^ (k + 53))) / 2 ^ (k + 53)"
proof -
  have p: "2 powr (- real n) = 1 / 2 ^ n" for n
    by (simp add: powr_minus powr_realpow divide_inverse)
  have x: "0 < x"
  proof -
    have "(0::real) < 1 / 2 ^ (k + 1)" by simp
    then show ?thesis using assms(1) by linarith
  qed
  have e1: "real_of_int (- int (k + 1)) = - real (k + 1)" by simp
  have e2: "real_of_int (- int (k + 1) + 1) = - real k" by simp
  have e3: "real_of_int (- int (k + 1)) - 52 = - real (k + 53)" by simp
  have "round_double x
      = 2 powr (real_of_int (- int (k + 1)) - 52)
        * real_of_int (rne (x / 2 powr (real_of_int (- int (k + 1)) - 52)))"
  proof (rule round_double_in_binade)
    show "0 < x" by (rule x)
    show "- 1022 \<le> - int (k + 1)" using assms(3) by simp
    show "2 powr real_of_int (- int (k + 1)) \<le> x" unfolding e1 p using assms(1) .
    show "x < 2 powr real_of_int (- int (k + 1) + 1)" unfolding e2 p using assms(2) .
  qed
  then show ?thesis unfolding e3 p by simp
qed

lemma round_double_large:
  assumes "2 ^ k \<le> x" "x < 2 ^ (k + 1)" "k \<le> 52"
  shows "round_double x = real_of_int (rne (x * 2 ^ (52 - k))) / 2 ^ (52 - k)"
proof -
  have p: "2 powr (- real n) = 1 / 2 ^ n" for n
    by (simp add: powr_minus powr_realpow divide_inverse)
  have x: "0 < x"
  proof -
    have "(0::real) < 2 ^ k" by simp
    then show ?thesis using assms(1) by linarith
  qed
  have e1: "2 powr real_of_int (int k) = 2 ^ k" by (simp add: powr_realpow)
  have e2: "2 powr real_of_int (int k + 1) = 2 ^ (k + 1)"
  proof -
    have "real_of_int (int k + 1) = real (k + 1)" by simp
    then show ?thesis by (simp only: powr_realpow)
  qed
  have e3: "real_of_int (int k) - 52 = - real (52 - k)" using assms(3) by simp
  have "round_double x
      = 2 powr (real_of_int (int k) - 52)
        * real_of_int (rne (x / 2 powr (real_of_int (int k) - 52)))"
  proof (rule round_double_in_binade)
    show "0 < x" by (rule x)
    show "- 1022 \<le> int k" by simp
    show "2 powr real_of_int (int k) \<le> x" unfolding e1 using assms(1) .
    show "x < 2 powr real_of_int (int k + 1)" unfolding e2 using assms(2) .
  qed
  then show ?thesis unfolding e3 p by simp
qed

lemma round_double_tiny:
  assumes "0 < x" "x < 1 / 2 ^ 1022"
  shows "round_double x = real_of_int (rne (x * 2 ^ 1074)) / 2 ^ 1074"
proof -
  define c :: real where "c = 2 ^ 1074"
  have low: "2 powr (- real 1022) = 1 / 2 ^ 1022" by (rule pow2_minus)
  have "real 1022 = 1022" by simp
  then have "x < 2 powr (- 1022)" using assms(2) low by (simp only:)
  with assms(1) have "binade x = - 1022" by (rule binade_subnormal)
  then have "quantum x = 2 powr (- real 1074)" by (simp add: quantum_def)
  then have q: "quantum x = 1 / c" by (simp only: pow2_minus c_def)
  have "round_double x = quantum x * real_of_int (rne (x / quantum x))"
    using assms(1) by (rule round_double_pos)
  then have "round_double x = real_of_int (rne (x * c)) / c"
    unfolding q by simp
  then show ?thesis unfolding c_def .
qed

section \<open>Properties of the load balancer\<close>

subsection \<open>Round robin\<close>

lemma select_round_robin_step:
  assumes rr: "strategy lb = ROUND_ROBIN"
    and healthy: "get_healthy_services sm ty = insts"
    and nonempty: "insts \<noteq> []"
  shows "\<exists>lb'. select_service_instance lb (Some sm) ty ctx
            = (Some (instance_id (config (insts ! (round_robin_counters lb ty mod length insts)))), lb')
          \<and> strategy lb' = ROUND_ROBIN
          \<and> round_robin_counters lb' ty mod length insts
              = (round_robin_counters lb ty + 1) mod length insts"
proof (cases "length insts = 1")
  case True
  then show ?thesis
    using rr healthy nonempty by (simp add: select_service_instance_def)
next
  case False
  then show ?thesis
    using rr healthy nonempty
    by (simp add: select_service_instance_def round_robin_select_def Let_def)
qed

lemma select_repeatedly_round_robin:
  assumes healthy: "get_healthy_services sm ty = insts"
    and nonempty: "insts \<noteq> []"
  shows "strategy lb = ROUND_ROBIN \<Longrightarrow>
         fst (select_repeatedly n lb sm ty)
           = map (\<lambda>j. Some (instance_id (config (insts ! ((round_robin_counters lb ty + j) mod length insts)))))
               [0..<n]"
proof (induction n arbitrary: lb)
  case 0
  then show ?case by simp
next
  case (Suc n)
  obtain lb' where step: "select_service_instance lb (Some sm) ty None
            = (Some (instance_id (config (insts ! (round_robin_counters lb ty mod length insts)))), lb')"
    and rr': "strategy lb' = ROUND_ROBIN"
    and cnt: "round_robin_counters lb' ty mod length insts
              = (round_robin_counters lb ty + 1) mod length insts"
    using select_round_robin_step [OF Suc.prems healthy nonempty] by blast
  have shift: "(round_robin_counters lb' ty + j) mod length insts
             = (round_robin_counters lb ty + Suc j) mod length insts" for j
    using cnt by (metis add_Suc_right add_Suc_shift mod_add_left_eq Suc_eq_plus1)
  have "fst (select_repeatedly (Suc n) lb sm ty)
      = Some (instance_id (config (insts ! (round_robin_counters lb ty mod length insts))))
        # fst (select_repeatedly n lb' sm ty)"
    using step by (simp add: split_beta)
  also have "fst (select_repeatedly n lb' sm ty)
      = map (\<lambda>j. Some (instance_id (config (insts ! ((round_robin_counters lb ty + Suc j) mod length insts)))))
          [0..<n]"
    using Suc.IH [OF rr'] by (simp add: shift)
  finally show ?case
    by (simp add: upt_conv_Cons map_Suc_upt [symmetric] del: upt_Suc)
qed

lemma nth_concat_replicate:
  "xs \<noteq> [] \<Longrightarrow> i < m * length xs \<Longrightarrow> concat (replicate m xs) ! i = xs ! (i mod length xs)"
proof (induction m arbitrary: i)
  case 0
  then show ?case by simp
next
  case (Suc m)
  show ?case
  proof (cases "i < length xs")
    case True
    then show ?thesis by (simp add: nth_append)
  next
    case False
    then have "i - length xs < m * length xs" using Suc.prems by simp
    then have "concat (replicate m xs) ! (i - length xs) = xs ! ((i - length xs) mod length xs)"
      using Suc.IH Suc.prems(1) by blast
    moreover have "(i - length xs) mod length xs = i mod length xs"
      using False by (simp add: le_mod_geq)
    ultimately show ?thesis using False by (simp add: nth_append)
  qed
qed

text \<open>
  Claim C5: with the round robin strategy and a fixed list of \<open>k \<ge> 1\<close> healthy instances
  of one type, consecutive calls of \<open>select_service_instance\<close> walk through the list in
  list order and cyclically. With \<open>c\<close> the counter of the type before the first call, call
  number \<open>j\<close> (from 0) returns the identifier at position \<open>(c + j) mod k\<close>; hence
  \<open>m * k\<close> consecutive calls return \<open>m\<close> times the list rotated by \<open>c\<close>, that is every
  instance of the list exactly once per \<open>k\<close> calls, and a balancer whose counter is 0
  (as after construction) returns the identifiers of the list itself, first to last.
\<close>

theorem round_robin_cycles:
  assumes rr: "strategy lb = ROUND_ROBIN"
    and healthy: "get_healthy_services sm ty = insts"
    and k: "1 \<le> length insts"
  shows "(\<forall>n. fst (select_repeatedly n lb sm ty)
             = map (\<lambda>j. Some (instance_id (config
                     (insts ! ((round_robin_counters lb ty + j) mod length insts))))) [0..<n])
       \<and> (\<forall>m. fst (select_repeatedly (m * length insts) lb sm ty)
             = concat (replicate m (map (\<lambda>i. Some (instance_id (config i)))
                 (rotate (round_robin_counters lb ty) insts))))
       \<and> (round_robin_counters lb ty = 0 \<longrightarrow>
            fst (select_repeatedly (length insts) lb sm ty)
              = map (\<lambda>i. Some (instance_id (config i))) insts)"
proof -
  let ?c = "round_robin_counters lb ty"
  let ?k = "length insts"
  let ?name = "\<lambda>i. Some (instance_id (config i))"
  have nonempty: "insts \<noteq> []" using k by auto
  have calls: "fst (select_repeatedly n lb sm ty)
      = map (\<lambda>j. ?name (insts ! ((?c + j) mod ?k))) [0..<n]" for n
    using select_repeatedly_round_robin [OF healthy nonempty rr] .
  have rounds: "fst (select_repeatedly (m * ?k) lb sm ty)
      = concat (replicate m (map ?name (rotate ?c insts)))" for m
  proof (rule nth_equalityI)
    show "length (fst (select_repeatedly (m * ?k) lb sm ty))
        = length (concat (replicate m (map ?name (rotate ?c insts))))"
      by (simp add: calls length_concat sum_list_replicate)
  next
    fix i
    assume "i < length (fst (select_repeatedly (m * ?k) lb sm ty))"
    then have i: "i < m * ?k" by (simp add: calls)
    have pos: "i mod ?k < ?k" using nonempty by simp
    have "concat (replicate m (map ?name (rotate ?c insts))) ! i
        = map ?name (rotate ?c insts) ! (i mod ?k)"
      using nth_concat_replicate [of "map ?name (rotate ?c insts)" i m] nonempty i by simp
    also have "\<dots> = ?name (insts ! ((?c + i mod ?k) mod ?k))"
      using pos by (simp add: nth_rotate)
    also have "(?c + i mod ?k) mod ?k = (?c + i) mod ?k"
      by (simp add: mod_add_right_eq)
    finally show "fst (select_repeatedly (m * ?k) lb sm ty) ! i
        = concat (replicate m (map ?name (rotate ?c insts))) ! i"
      using i by (simp add: calls)
  qed
  have fresh: "fst (select_repeatedly ?k lb sm ty) = map ?name insts" if "?c = 0"
    using rounds [of 1] that by simp
  show ?thesis using calls rounds fresh by blast
qed

theorem round_robin_cycles_witness:
  "fst (select_repeatedly 6 (init_load_balancer ROUND_ROBIN)
          (healthy_manager RELEVANCE [''instance_1'', ''instance_2'', ''instance_3'']) RELEVANCE)
     = [Some ''instance_1'', Some ''instance_2'', Some ''instance_3'',
        Some ''instance_1'', Some ''instance_2'', Some ''instance_3'']"
proof -
  let ?sm = "healthy_manager RELEVANCE [''instance_1'', ''instance_2'', ''instance_3'']"
  let ?insts = "[running_healthy RELEVANCE ''instance_1'', running_healthy RELEVANCE ''instance_2'',
                 running_healthy RELEVANCE ''instance_3'']"
  have a: "strategy (init_load_balancer ROUND_ROBIN) = ROUND_ROBIN"
    by (simp add: init_load_balancer_def)
  have b: "get_healthy_services ?sm RELEVANCE = ?insts"
    by (simp add: get_healthy_services_def get_services_by_type_def healthy_manager_def
        List.map_filter_def running_healthy_def new_instance_def)
  have c: "1 \<le> length ?insts" by simp
  have "\<forall>m. fst (select_repeatedly (m * length ?insts) (init_load_balancer ROUND_ROBIN) ?sm RELEVANCE)
      = concat (replicate m (map (\<lambda>i. Some (instance_id (config i)))
          (rotate (round_robin_counters (init_load_balancer ROUND_ROBIN) RELEVANCE) ?insts)))"
    using round_robin_cycles [OF a b c] by blast
  then have "fst (select_repeatedly (2 * length ?insts) (init_load_balancer ROUND_ROBIN) ?sm RELEVANCE)
      = concat (replicate 2 (map (\<lambda>i. Some (instance_id (config i)))
          (rotate (round_robin_counters (init_load_balancer ROUND_ROBIN) RELEVANCE) ?insts)))"
    by (rule spec)
  moreover have "2 * length ?insts = 6" by simp
  ultimately have "fst (select_repeatedly 6 (init_load_balancer ROUND_ROBIN) ?sm RELEVANCE)
      = concat (replicate 2 (map (\<lambda>i. Some (instance_id (config i)))
          (rotate (round_robin_counters (init_load_balancer ROUND_ROBIN) RELEVANCE) ?insts)))"
    by (simp only:)
  also have "\<dots> = [Some ''instance_1'', Some ''instance_2'', Some ''instance_3'',
        Some ''instance_1'', Some ''instance_2'', Some ''instance_3'']"
    by (simp add: init_load_balancer_def running_healthy_def new_instance_def default_config_def
        numeral_2_eq_2)
  finally show ?thesis .
qed

subsection \<open>Request start and request end\<close>

text \<open>
  Claim C10: \<open>record_request_end\<close> for an identifier without an entry in the metrics
  table returns the balancer as it was: no entry is created and no entry of another
  identifier changes.
\<close>

theorem record_request_end_unknown_noop:
  assumes "metrics lb iid = None"
  shows "record_request_end lb iid response_time success = lb"
  using assms by (simp add: record_request_end_def)

theorem record_request_end_unknown_noop_witness:
  "metrics lrt_absent ''b'' = None
   \<and> record_request_end lrt_absent ''b'' 200 True = lrt_absent
   \<and> record_request_end lrt_absent ''b'' 5000 False = lrt_absent"
proof -
  have a: "metrics lrt_absent ''b'' = None"
    by (simp add: lrt_absent_def update_service_metrics_def init_load_balancer_def Let_def)
  show ?thesis
    using record_request_end_unknown_noop [OF a] a by simp
qed

text \<open>
  Claim C6, as stated, speaks of every state of the metrics table. The count is a Python
  \<^verbatim>\<open>int\<close> and \<open>update_service_metrics\<close> stores whatever count it is given. In
  \<open>negative_connections\<close> the entry of \<open>x\<close> holds \<open>- 3\<close>; a start followed by an end
  leaves 0 there, not \<open>- 3\<close>, because the end clamps at 0.
\<close>

theorem request_pair_negative_counterexample:
  "connection_count negative_connections ''x'' = - 3
   \<and> connection_count
        (record_request_end (record_request_start negative_connections ''x'') ''x'' 200 True) ''x''
       = 0"
  by (simp add: connection_count_def negative_connections_def update_service_metrics_def
      init_load_balancer_def Let_def record_request_start_def record_request_end_def
      new_metrics_def connections_update_def dict_get_def)

lemma connection_count_start_nonneg:
  "0 \<le> connection_count lb iid \<Longrightarrow> 0 \<le> connection_count (record_request_start lb j) iid"
  by (auto simp: connection_count_def record_request_start_def Let_def new_metrics_def
      split: option.splits)

lemma connection_count_end_nonneg:
  "0 \<le> connection_count lb iid \<Longrightarrow> 0 \<le> connection_count (record_request_end lb j rt ok) iid"
  by (auto simp: connection_count_def record_request_end_def split: option.splits)

lemma connection_count_events_nonneg:
  "0 \<le> connection_count lb iid \<Longrightarrow> 0 \<le> connection_count (apply_events lb evs) iid"
  unfolding apply_events_def
proof (induction evs arbitrary: lb)
  case Nil
  then show ?case by simp
next
  case (Cons ev evs)
  have "0 \<le> connection_count (apply_event lb ev) iid"
    using Cons.prems
    by (cases ev) (simp_all add: connection_count_start_nonneg connection_count_end_nonneg)
  then show ?case using Cons.IH by simp
qed

lemma request_pair_restores:
  "0 \<le> connection_count lb iid \<Longrightarrow>
   connection_count (record_request_end (record_request_start lb iid) iid rt ok) iid
     = connection_count lb iid"
  by (auto simp: connection_count_def record_request_start_def record_request_end_def Let_def
      new_metrics_def split: option.splits)

text \<open>
  Claim C6, amended: for every identifier and every state of the metrics table in which
  the count of that identifier is not negative (an identifier without an entry counts as
  0), whatever the counts of the other identifiers are, the count of that identifier is
  not negative after any sequence of \<open>record_request_start\<close> and
  \<open>record_request_end\<close> calls, for this or other identifiers; and in the state so
  reached a \<open>record_request_start\<close> followed by a \<open>record_request_end\<close> for the
  identifier leaves its count where it was before the pair.
\<close>

theorem request_pair_restores_connections:
  assumes "0 \<le> connection_count lb iid"
  shows "0 \<le> connection_count (apply_events lb evs) iid
       \<and> connection_count
           (record_request_end (record_request_start (apply_events lb evs) iid) iid response_time success)
           iid
          = connection_count (apply_events lb evs) iid"
proof -
  have nn: "0 \<le> connection_count (apply_events lb evs) iid"
    using assms by (rule connection_count_events_nonneg)
  then show ?thesis using request_pair_restores [OF nn] by simp
qed

theorem request_pair_restores_connections_witness:
  "connection_count mixed_connections ''x'' = - 3
   \<and> connection_count mixed_connections ''y'' = 2
   \<and> connection_count
        (apply_events mixed_connections
           [RequestStart ''x'', RequestEnd ''y'' 200 True, RequestStart ''z'']) ''y'' = 1
   \<and> connection_count
        (record_request_end
           (record_request_start
              (apply_events mixed_connections
                 [RequestStart ''x'', RequestEnd ''y'' 200 True, RequestStart ''z'']) ''y'')
           ''y'' 5000 False) ''y'' = 1"
proof -
  have a: "connection_count mixed_connections ''x'' = - 3"
    "connection_count mixed_connections ''y'' = 2"
    by (simp_all add: mixed_connections_def negative_connections_def update_service_metrics_def
        Let_def connections_update_def dict_get_def new_metrics_def init_load_balancer_def
        connection_count_def)
  have nn: "0 \<le> connection_count mixed_connections ''y''" by (simp add: a)
  have b: "connection_count
        (apply_events mixed_connections
           [RequestStart ''x'', RequestEnd ''y'' 200 True, RequestStart ''z'']) ''y'' = 1"
    by (simp add: apply_events_def mixed_connections_def negative_connections_def
        update_service_metrics_def Let_def connections_update_def dict_get_def new_metrics_def
        init_load_balancer_def connection_count_def record_request_start_def
        record_request_end_def)
  show ?thesis
    using request_pair_restores_connections [OF nn,
        of "[RequestStart ''x'', RequestEnd ''y'' 200 True, RequestStart ''z'']" 5000 False]
      a b
    by simp
qed

subsection \<open>Least response time\<close>

text \<open>
  Claim C3, as stated: an instance without any recorded sample is compared as if its
  average were 100. In \<open>lrt_absent\<close> the instance \<open>a\<close> has the average 150 and \<open>b\<close>
  has no entry in the metrics table: \<open>b\<close> is compared as infinity and \<open>a\<close> is selected,
  where a default of 100 would select \<open>b\<close>. After a single \<open>record_request_start\<close> for
  \<open>b\<close>, still without any sample, \<open>b\<close> has an entry with the average 0, is compared as
  100, and is selected.
\<close>

theorem least_response_time_absent_counterexample:
  "effective_response_time (metrics lrt_absent) ''b'' = PosInf
   \<and> fst (select_service_instance lrt_absent (Some (healthy_manager WISDOM [''a'', ''b''])) WISDOM None)
       = Some ''a''
   \<and> effective_response_time (metrics lrt_started) ''b'' = Fin 100
   \<and> fst (select_service_instance lrt_started (Some (healthy_manager WISDOM [''a'', ''b''])) WISDOM None)
       = Some ''b''"
  by (simp add: lrt_absent_def lrt_started_def update_service_metrics_def init_load_balancer_def
      Let_def record_request_start_def new_metrics_def avg_update_def dict_get_def
      effective_response_time_def select_service_instance_def get_healthy_services_def
      get_services_by_type_def healthy_manager_def List.map_filter_def running_healthy_def
      new_instance_def default_config_def least_response_time_select_def select_min_def)

lemma pf_less_irrefl: "\<not> pf_less a a"
  by (cases a) simp_all

lemma pf_less_trans: "pf_less a b \<Longrightarrow> pf_less b c \<Longrightarrow> pf_less a c"
  by (cases a; cases b; cases c) simp_all

lemma pf_less_PosInf: "(\<not> pf_less a PosInf) = (a = PosInf)"
  by (cases a) simp_all

lemma pf_less_total: "\<not> pf_less a b \<Longrightarrow> pf_less c b \<Longrightarrow> pf_less c a"
  by (cases a; cases b; cases c) simp_all

lemma select_min_loop_minimal:
  assumes "(best = None \<and> minimum = PosInf \<and> (\<forall>z \<in> seen. score z = PosInf))
      \<or> (\<exists>b. best = Some b \<and> b \<in> seen \<and> score b = minimum \<and> minimum \<noteq> PosInf
            \<and> (\<forall>z \<in> seen. \<not> pf_less (score z) minimum))"
  shows "(select_min_loop score xs best minimum = None
            \<and> (\<forall>z \<in> seen \<union> set xs. score z = PosInf))
      \<or> (\<exists>r. select_min_loop score xs best minimum = Some r \<and> r \<in> seen \<union> set xs
            \<and> score r \<noteq> PosInf \<and> (\<forall>z \<in> seen \<union> set xs. \<not> pf_less (score z) (score r)))"
  using assms
proof (induction xs arbitrary: best minimum seen)
  case Nil
  then show ?case by auto
next
  case (Cons x xs)
  show ?case
  proof (cases "pf_less (score x) minimum")
    case True
    have fin: "score x \<noteq> PosInf" using True by (cases "score x") simp_all
    have "\<forall>z \<in> insert x seen. \<not> pf_less (score z) (score x)"
    proof
      fix z assume z: "z \<in> insert x seen"
      show "\<not> pf_less (score z) (score x)"
      proof (cases "z = x")
        case True
        then show ?thesis by (simp add: pf_less_irrefl)
      next
        case False
        then have zs: "z \<in> seen" using z by simp
        from Cons.prems show ?thesis
        proof
          assume "best = None \<and> minimum = PosInf \<and> (\<forall>z \<in> seen. score z = PosInf)"
          then have "score z = PosInf" using zs by blast
          then show ?thesis by simp
        next
          assume "\<exists>b. best = Some b \<and> b \<in> seen \<and> score b = minimum \<and> minimum \<noteq> PosInf
            \<and> (\<forall>z \<in> seen. \<not> pf_less (score z) minimum)"
          then have "\<not> pf_less (score z) minimum" using zs by blast
          then show ?thesis using True pf_less_trans by blast
        qed
      qed
    qed
    then have inv: "(Some x = None \<and> score x = PosInf \<and> (\<forall>z \<in> insert x seen. score z = PosInf))
      \<or> (\<exists>b. Some x = Some b \<and> b \<in> insert x seen \<and> score b = score x \<and> score x \<noteq> PosInf
            \<and> (\<forall>z \<in> insert x seen. \<not> pf_less (score z) (score x)))"
      using fin by simp
    have "select_min_loop score (x # xs) best minimum = select_min_loop score xs (Some x) (score x)"
      using True by simp
    moreover have "insert x seen \<union> set xs = seen \<union> set (x # xs)" by simp
    ultimately show ?thesis using Cons.IH [OF inv] by (simp only:)
  next
    case False
    have inv: "(best = None \<and> minimum = PosInf \<and> (\<forall>z \<in> insert x seen. score z = PosInf))
      \<or> (\<exists>b. best = Some b \<and> b \<in> insert x seen \<and> score b = minimum \<and> minimum \<noteq> PosInf
            \<and> (\<forall>z \<in> insert x seen. \<not> pf_less (score z) minimum))"
      using Cons.prems
    proof
      assume a: "best = None \<and> minimum = PosInf \<and> (\<forall>z \<in> seen. score z = PosInf)"
      then have "score x = PosInf" using False pf_less_PosInf by blast
      then show ?thesis using a by simp
    next
      assume "\<exists>b. best = Some b \<and> b \<in> seen \<and> score b = minimum \<and> minimum \<noteq> PosInf
            \<and> (\<forall>z \<in> seen. \<not> pf_less (score z) minimum)"
      then show ?thesis using False by auto
    qed
    have "select_min_loop score (x # xs) best minimum = select_min_loop score xs best minimum"
      using False by simp
    moreover have "insert x seen \<union> set xs = seen \<union> set (x # xs)" by simp
    ultimately show ?thesis using Cons.IH [OF inv] by (simp only:)
  qed
qed

lemma select_min_minimal:
  assumes "xs \<noteq> []"
  shows "\<exists>s \<in> set xs. select_min score xs = instance_id (config s)
           \<and> (\<forall>z \<in> set xs. \<not> pf_less (score z) (score s))"
proof -
  have "(select_min_loop score xs None PosInf = None
            \<and> (\<forall>z \<in> {} \<union> set xs. score z = PosInf))
      \<or> (\<exists>r. select_min_loop score xs None PosInf = Some r \<and> r \<in> {} \<union> set xs
            \<and> score r \<noteq> PosInf \<and> (\<forall>z \<in> {} \<union> set xs. \<not> pf_less (score z) (score r)))"
    by (rule select_min_loop_minimal) simp
  then show ?thesis
  proof
    assume a: "select_min_loop score xs None PosInf = None
            \<and> (\<forall>z \<in> {} \<union> set xs. score z = PosInf)"
    have "xs ! 0 \<in> set xs" using assms by simp
    moreover have "select_min score xs = instance_id (config (xs ! 0))"
      using a by (simp add: select_min_def)
    moreover have "\<forall>z \<in> set xs. \<not> pf_less (score z) (score (xs ! 0))"
      using a by simp
    ultimately show ?thesis by blast
  next
    assume "\<exists>r. select_min_loop score xs None PosInf = Some r \<and> r \<in> {} \<union> set xs
            \<and> score r \<noteq> PosInf \<and> (\<forall>z \<in> {} \<union> set xs. \<not> pf_less (score z) (score r))"
    then obtain r where r: "select_min_loop score xs None PosInf = Some r" "r \<in> set xs"
      "\<forall>z \<in> set xs. \<not> pf_less (score z) (score r)" by auto
    have "select_min score xs = instance_id (config r)" using r(1) by (simp add: select_min_def)
    then show ?thesis using r(2,3) by blast
  qed
qed

lemma least_response_time_two:
  assumes "strategy lb = LEAST_RESPONSE_TIME" "get_healthy_services sm ty = [p, q]"
  shows "select_service_instance lb (Some sm) ty ctx
      = (Some (if pf_less (effective_response_time (metrics lb) (instance_id (config q)))
                    (effective_response_time (metrics lb) (instance_id (config p)))
               then instance_id (config q) else instance_id (config p)), lb)"
  using assms
  by (cases "effective_response_time (metrics lb) (instance_id (config p))")
    (simp_all add: select_service_instance_def least_response_time_select_def select_min_def)

lemma least_response_time_any:
  assumes lrt: "strategy lb = LEAST_RESPONSE_TIME"
    and healthy: "get_healthy_services sm ty = hs"
    and nonempty: "hs \<noteq> []"
  shows "\<exists>s \<in> set hs.
           select_service_instance lb (Some sm) ty ctx = (Some (instance_id (config s)), lb)
         \<and> (\<forall>z \<in> set hs. \<not> pf_less (effective_response_time (metrics lb) (instance_id (config z)))
               (effective_response_time (metrics lb) (instance_id (config s))))"
proof (cases "length hs = 1")
  case True
  then obtain s where s: "hs = [s]" by (cases hs) auto
  have "select_service_instance lb (Some sm) ty ctx = (Some (instance_id (config s)), lb)"
    using healthy s by (simp add: select_service_instance_def)
  then show ?thesis using s by (simp add: pf_less_irrefl)
next
  case False
  let ?score = "\<lambda>instance. effective_response_time (metrics lb) (instance_id (config instance))"
  obtain s where s: "s \<in> set hs" "select_min ?score hs = instance_id (config s)"
    "\<forall>z \<in> set hs. \<not> pf_less (?score z) (?score s)"
    using select_min_minimal [OF nonempty, of ?score] by blast
  have "select_service_instance lb (Some sm) ty ctx = (Some (select_min ?score hs), lb)"
    using healthy nonempty False lrt
    by (simp add: select_service_instance_def least_response_time_select_def)
  then show ?thesis using s by auto
qed

text \<open>
  Claim C3, amended: under the least-response-time strategy \<open>select_service_instance\<close>
  returns a healthy instance and leaves the balancer unchanged; the instance returned has
  an entry in the metrics table whenever some healthy instance has one, and no healthy
  instance with an entry has a smaller average, an average of 0 counting as 100. With two
  healthy instances \<open>x\<close> and \<open>y\<close>, in either order, of which \<open>x\<close> has an entry:
  when \<open>y\<close> has no entry, \<open>x\<close> is returned, whatever its average is; when \<open>y\<close>
  has an entry with the average 0 and the average \<open>t\<close> of \<open>x\<close> is not 0, \<open>y\<close> is
  returned if \<open>100 < t\<close>, \<open>x\<close> if \<open>t < 100\<close>, and the first of the list if
  \<open>t = 100\<close>; in particular, when \<open>x\<close> has the average 50 and \<open>y\<close> has no samples
  (no entry, or an entry with the average 0), \<open>x\<close> is returned.
\<close>

theorem least_response_time_default:
  assumes lrt: "strategy lb = LEAST_RESPONSE_TIME"
    and healthy: "get_healthy_services sm ty = hs"
    and nonempty: "hs \<noteq> []"
  shows "(\<exists>s \<in> set hs.
            select_service_instance lb (Some sm) ty ctx = (Some (instance_id (config s)), lb)
          \<and> ((\<exists>s' \<in> set hs. metrics lb (instance_id (config s')) \<noteq> None)
                \<longrightarrow> metrics lb (instance_id (config s)) \<noteq> None)
          \<and> (\<forall>s' \<in> set hs. \<forall>m m'.
                metrics lb (instance_id (config s)) = Some m
                \<and> metrics lb (instance_id (config s')) = Some m' \<longrightarrow>
                  (if average_response_time m = 0 then 100 else average_response_time m)
                    \<le> (if average_response_time m' = 0 then 100 else average_response_time m')))
       \<and> (\<forall>x y mx. (hs = [x, y] \<or> hs = [y, x]) \<and> metrics lb (instance_id (config x)) = Some mx \<longrightarrow>
            (metrics lb (instance_id (config y)) = None \<longrightarrow>
               select_service_instance lb (Some sm) ty ctx = (Some (instance_id (config x)), lb))
          \<and> (\<forall>my. metrics lb (instance_id (config y)) = Some my \<and> average_response_time my = 0
                 \<and> average_response_time mx \<noteq> 0 \<longrightarrow>
               select_service_instance lb (Some sm) ty ctx
                 = (Some (if 100 < average_response_time mx then instance_id (config y)
                          else if average_response_time mx < 100 then instance_id (config x)
                          else instance_id (config (hd hs))), lb))
          \<and> (average_response_time mx = 50
               \<and> (metrics lb (instance_id (config y)) = None
                    \<or> (\<exists>my. metrics lb (instance_id (config y)) = Some my
                          \<and> average_response_time my = 0)) \<longrightarrow>
               select_service_instance lb (Some sm) ty ctx = (Some (instance_id (config x)), lb)))"
proof -
  let ?sel = "select_service_instance lb (Some sm) ty ctx"
  let ?e = "\<lambda>s. effective_response_time (metrics lb) (instance_id (config s))"
  obtain s where s: "s \<in> set hs" "?sel = (Some (instance_id (config s)), lb)"
    "\<forall>z \<in> set hs. \<not> pf_less (?e z) (?e s)"
    using least_response_time_any [OF lrt healthy nonempty, of ctx] by blast
  have entry: "metrics lb (instance_id (config s)) \<noteq> None"
    if ex: "\<exists>s' \<in> set hs. metrics lb (instance_id (config s')) \<noteq> None"
  proof -
    obtain s' where s': "s' \<in> set hs" "metrics lb (instance_id (config s')) \<noteq> None"
      using ex by blast
    have "\<not> pf_less (?e s') (?e s)" using s(3) s'(1) by blast
    then show ?thesis using s'(2)
      by (auto simp: effective_response_time_def split: option.splits if_splits)
  qed
  have least: "(if average_response_time m = 0 then 100 else average_response_time m)
       \<le> (if average_response_time m' = 0 then 100 else average_response_time m')"
    if "s' \<in> set hs" "metrics lb (instance_id (config s)) = Some m"
      "metrics lb (instance_id (config s')) = Some m'" for s' m m'
  proof -
    have "\<not> pf_less (?e s') (?e s)" using s(3) that(1) by blast
    then show ?thesis using that(2,3)
      by (auto simp: effective_response_time_def split: if_splits)
  qed
  have general: "\<exists>s \<in> set hs. ?sel = (Some (instance_id (config s)), lb)
          \<and> ((\<exists>s' \<in> set hs. metrics lb (instance_id (config s')) \<noteq> None)
                \<longrightarrow> metrics lb (instance_id (config s)) \<noteq> None)
          \<and> (\<forall>s' \<in> set hs. \<forall>m m'.
                metrics lb (instance_id (config s)) = Some m
                \<and> metrics lb (instance_id (config s')) = Some m' \<longrightarrow>
                  (if average_response_time m = 0 then 100 else average_response_time m)
                    \<le> (if average_response_time m' = 0 then 100 else average_response_time m'))"
    using s(1,2) entry least by blast
  have two: "(metrics lb (instance_id (config y)) = None \<longrightarrow>
               ?sel = (Some (instance_id (config x)), lb))
          \<and> (\<forall>my. metrics lb (instance_id (config y)) = Some my \<and> average_response_time my = 0
                 \<and> average_response_time mx \<noteq> 0 \<longrightarrow>
               ?sel = (Some (if 100 < average_response_time mx then instance_id (config y)
                          else if average_response_time mx < 100 then instance_id (config x)
                          else instance_id (config (hd hs))), lb))
          \<and> (average_response_time mx = 50
               \<and> (metrics lb (instance_id (config y)) = None
                    \<or> (\<exists>my. metrics lb (instance_id (config y)) = Some my
                          \<and> average_response_time my = 0)) \<longrightarrow>
               ?sel = (Some (instance_id (config x)), lb))"
    if order: "hs = [x, y] \<or> hs = [y, x]" and mx: "metrics lb (instance_id (config x)) = Some mx"
    for x y mx
    using order
  proof
    assume h: "hs = [x, y]"
    have "?sel = (Some (if pf_less (?e y) (?e x) then instance_id (config y)
        else instance_id (config x)), lb)"
      using lrt healthy h by (simp add: least_response_time_two)
    then show ?thesis using mx h
      by (auto simp: effective_response_time_def)
  next
    assume h: "hs = [y, x]"
    have "?sel = (Some (if pf_less (?e x) (?e y) then instance_id (config x)
        else instance_id (config y)), lb)"
      using lrt healthy h by (simp add: least_response_time_two)
    then show ?thesis using mx h
      by (auto simp: effective_response_time_def)
  qed
  show ?thesis using general two by blast
qed

theorem least_response_time_default_witness:
  "select_service_instance lrt_fifty (Some (healthy_manager WISDOM [''a'', ''b''])) WISDOM None
     = (Some ''a'', lrt_fifty)
   \<and> select_service_instance (record_request_start lrt_fifty ''b'')
        (Some (healthy_manager WISDOM [''b'', ''a''])) WISDOM None
     = (Some ''a'', record_request_start lrt_fifty ''b'')
   \<and> select_service_instance lrt_started (Some (healthy_manager WISDOM [''a'', ''b''])) WISDOM None
     = (Some ''b'', lrt_started)"
proof -
  let ?a = "running_healthy WISDOM ''a''"
  let ?b = "running_healthy WISDOM ''b''"
  let ?ma = "(new_metrics ''a'')\<lparr> average_response_time := 50 \<rparr>"
  let ?ma' = "(new_metrics ''a'')\<lparr> average_response_time := 150 \<rparr>"
  let ?mb = "(new_metrics ''b'')\<lparr> current_connections := 1 \<rparr>"
  have ids: "instance_id (config ?a) = ''a''" "instance_id (config ?b) = ''b''"
    by (simp_all add: running_healthy_def new_instance_def default_config_def)
  have hab: "get_healthy_services (healthy_manager WISDOM [''a'', ''b'']) WISDOM = [?a, ?b]"
    by (simp add: get_healthy_services_def get_services_by_type_def healthy_manager_def
        List.map_filter_def running_healthy_def new_instance_def)
  have hba: "get_healthy_services (healthy_manager WISDOM [''b'', ''a'']) WISDOM = [?b, ?a]"
    by (simp add: get_healthy_services_def get_services_by_type_def healthy_manager_def
        List.map_filter_def running_healthy_def new_instance_def)
  have s1: "strategy lrt_fifty = LEAST_RESPONSE_TIME"
    by (simp add: lrt_fifty_def update_service_metrics_def init_load_balancer_def Let_def)
  have a1: "metrics lrt_fifty (instance_id (config ?a)) = Some ?ma"
    by (simp add: ids lrt_fifty_def update_service_metrics_def init_load_balancer_def Let_def
        avg_update_def dict_get_def new_metrics_def)
  have b1: "metrics lrt_fifty (instance_id (config ?b)) = None"
    by (simp add: ids lrt_fifty_def update_service_metrics_def init_load_balancer_def Let_def)
  have r1: "select_service_instance lrt_fifty (Some (healthy_manager WISDOM [''a'', ''b''])) WISDOM None
     = (Some ''a'', lrt_fifty)"
    using least_response_time_default [OF s1 hab, of None, THEN conjunct2, rule_format, of ?a ?b ?ma]
      a1 b1
    by (simp add: ids)
  let ?lb2 = "record_request_start lrt_fifty ''b''"
  have s2: "strategy ?lb2 = LEAST_RESPONSE_TIME"
    using s1 by (simp add: record_request_start_def Let_def)
  have a2: "metrics ?lb2 (instance_id (config ?a)) = Some ?ma"
    using a1 by (simp add: ids record_request_start_def Let_def)
  have b2: "metrics ?lb2 (instance_id (config ?b)) = Some ?mb"
    using b1 by (simp add: ids record_request_start_def Let_def new_metrics_def)
  have r2: "select_service_instance ?lb2 (Some (healthy_manager WISDOM [''b'', ''a''])) WISDOM None
     = (Some ''a'', ?lb2)"
    using least_response_time_default [OF s2 hba, of None, THEN conjunct2, rule_format, of ?a ?b ?ma]
      a2 b2
    by (simp add: ids new_metrics_def)
  have s3: "strategy lrt_started = LEAST_RESPONSE_TIME"
    by (simp add: lrt_started_def lrt_absent_def record_request_start_def
        update_service_metrics_def init_load_balancer_def Let_def)
  have a3: "metrics lrt_started (instance_id (config ?a)) = Some ?ma'"
    by (simp add: ids lrt_started_def lrt_absent_def record_request_start_def
        update_service_metrics_def init_load_balancer_def Let_def avg_update_def dict_get_def
        new_metrics_def)
  have b3: "metrics lrt_started (instance_id (config ?b)) = Some ?mb"
    by (simp add: ids lrt_started_def lrt_absent_def record_request_start_def
        update_service_metrics_def init_load_balancer_def Let_def new_metrics_def)
  have r3: "select_service_instance lrt_started (Some (healthy_manager WISDOM [''a'', ''b''])) WISDOM None
     = (Some ''b'', lrt_started)"
    using least_response_time_default [OF s3 hab, of None, THEN conjunct2, rule_format, of ?a ?b ?ma']
      a3 b3
    by (simp add: ids new_metrics_def)
  show ?thesis using r1 r2 r3 by simp
qed

subsection \<open>The smoothing factor\<close>

lemma alpha_value: "alpha = 3602879701896397 / 36028797018963968"
  unfolding alpha_def
  by (subst round_double_small [of 3]) (simp_all add: rne_def Let_def)

lemma beta_value: "round_double (1 - alpha) = 8106479329266893 / 9007199254740992"
  unfolding alpha_value
  by (subst round_double_small [of 0]) (simp_all add: rne_def Let_def)

lemma beta_idem: "round_double (round_double (1 - alpha)) = round_double (1 - alpha)"
  by (rule round_double_idem) (simp add: alpha_value)

lemma alpha_one: "round_double (alpha * 1) = alpha"
  by (simp add: alpha_def round_double_idem)

lemma round_double_alpha_plus: "round_double (alpha + round_double (1 - alpha)) = 1"
  apply (subst beta_value)
  apply (subst alpha_value)
  by (subst round_double_large [of 0]) (simp_all add: rne_def Let_def)

lemma round_double_alpha_5000: "round_double (alpha * 5000) = 500"
  unfolding alpha_value
  by (subst round_double_large [of 8]) (simp_all add: rne_def Let_def)

lemma round_double_500: "round_double 500 = 500"
  by (subst round_double_large [of 8]) (simp_all add: rne_def Let_def)

lemma smooth_fresh:
  "smooth 1 0 = alpha"
  "smooth 5000 0 = 500"
proof -
  have a: "round_double alpha = alpha" by (simp add: alpha_def round_double_idem)
  show "smooth 1 0 = alpha"
    by (simp add: smooth_def alpha_one round_double_zero a)
  show "smooth 5000 0 = 500"
    by (simp add: smooth_def round_double_alpha_5000 round_double_zero round_double_500)
qed

subsection \<open>One smoothing step\<close>

lemma round_double_error_unit:
  assumes "0 \<le> y" "y < 1"
  shows "\<bar>round_double y - y\<bar> \<le> 1 / 2 ^ 54"
proof (cases "y = 0")
  case True
  then show ?thesis by (simp add: round_double_zero)
next
  case False
  then have y: "0 < y" using assms(1) by simp
  have "binade y \<le> - 1"
    using y by (rule binade_le) (simp_all add: assms(2))
  then have "real_of_int (binade y) - 52 \<le> - real 53" by simp
  then have "quantum y \<le> 2 powr (- real 53)"
    unfolding quantum_def by (rule powr_mono) simp
  also have "2 powr (- real 53) = 1 / 2 ^ 53"
    by (rule pow2_minus)
  finally have "quantum y / 2 \<le> 1 / 2 ^ 54" by simp
  then show ?thesis using round_double_error [OF y] by linarith
qed

lemma smooth_one_upper:
  assumes "0 \<le> x" "x \<le> 1"
  shows "smooth 1 x \<le> 1"
proof -
  define b where "b = round_double (1 - alpha)"
  have bv: "b = 8106479329266893 / 9007199254740992" unfolding b_def by (rule beta_value)
  have bd: "round_double b = b" unfolding b_def by (rule beta_idem)
  have av: "alpha = 3602879701896397 / 36028797018963968" by (rule alpha_value)
  have "b * x \<le> b" using assms by (simp add: bv)
  moreover have y0: "0 \<le> b * x" using assms by (simp add: bv)
  ultimately have "round_double (b * x) \<le> round_double b" by (intro round_double_mono)
  then have le: "alpha + round_double (b * x) \<le> alpha + b" by (simp add: bd)
  have "0 \<le> round_double (b * x)" using y0 by (rule round_double_nonneg)
  then have "0 \<le> alpha + round_double (b * x)" by (simp add: av)
  then have "round_double (alpha + round_double (b * x)) \<le> round_double (alpha + b)"
    using le by (rule round_double_mono)
  also have "\<dots> = 1"
    using round_double_alpha_plus by (simp only: b_def)
  finally show ?thesis by (simp only: smooth_def alpha_one b_def)
qed

lemma smooth_one_nonneg:
  assumes "0 \<le> x"
  shows "0 \<le> smooth 1 x"
proof -
  define b where "b = round_double (1 - alpha)"
  have bv: "b = 8106479329266893 / 9007199254740992" unfolding b_def by (rule beta_value)
  have av: "alpha = 3602879701896397 / 36028797018963968" by (rule alpha_value)
  have "0 \<le> b * x" using assms by (simp add: bv)
  then have "0 \<le> round_double (b * x)" by (rule round_double_nonneg)
  then have "0 \<le> alpha + round_double (b * x)" by (simp add: av)
  then have "0 \<le> round_double (alpha + round_double (b * x))" by (rule round_double_nonneg)
  then show ?thesis by (simp only: smooth_def alpha_one b_def)
qed

lemma smooth_one_double:
  assumes "0 \<le> x"
  shows "is_double (smooth 1 x)"
proof -
  define b where "b = round_double (1 - alpha)"
  have bv: "b = 8106479329266893 / 9007199254740992" unfolding b_def by (rule beta_value)
  have av: "alpha = 3602879701896397 / 36028797018963968" by (rule alpha_value)
  have "0 \<le> b * x" using assms by (simp add: bv)
  then have "0 \<le> round_double (b * x)" by (rule round_double_nonneg)
  then have "0 \<le> alpha + round_double (b * x)" by (simp add: av)
  then have "is_double (round_double (alpha + round_double (b * x)))" by (rule is_double_round)
  then show ?thesis by (simp only: smooth_def alpha_one b_def)
qed

lemma smooth_one_lower_far:
  assumes "is_double x" "0 \<le> x" "x \<le> 1 - 3 / 2 ^ 53"
  shows "x \<le> smooth 1 x"
proof -
  define b where "b = round_double (1 - alpha)"
  have bv: "b = 8106479329266893 / 9007199254740992" unfolding b_def by (rule beta_value)
  have av: "alpha = 3602879701896397 / 36028797018963968" by (rule alpha_value)
  define y where "y = round_double (b * x)"
  have "0 \<le> b * x" "b * x < 1" using assms by (simp_all add: bv)
  then have "\<bar>y - b * x\<bar> \<le> 1 / 2 ^ 54"
    unfolding y_def by (rule round_double_error_unit)
  then have "b * x - 1 / 2 ^ 54 \<le> y" by linarith
  then have "x \<le> alpha + y"
    using assms(2,3) by (simp add: bv av)
  then have "round_double x \<le> round_double (alpha + y)"
    using assms(2) by (intro round_double_mono)
  then have "x \<le> round_double (alpha + y)" using assms(1) by (simp add: is_double_def)
  then show ?thesis by (simp only: smooth_def alpha_one b_def y_def)
qed

lemma smooth_one_strict:
  assumes "0 \<le> x" "x \<le> 1 - 1 / 2 ^ 50"
  shows "x < smooth 1 x"
proof -
  define b where "b = round_double (1 - alpha)"
  have bv: "b = 8106479329266893 / 9007199254740992" unfolding b_def by (rule beta_value)
  have av: "alpha = 3602879701896397 / 36028797018963968" by (rule alpha_value)
  define y where "y = round_double (b * x)"
  have y: "0 \<le> b * x" "b * x < 1" using assms by (simp_all add: bv)
  then have "\<bar>y - b * x\<bar> \<le> 1 / 2 ^ 54"
    unfolding y_def by (rule round_double_error_unit)
  then have y1: "b * x - 1 / 2 ^ 54 \<le> y" and y2: "y \<le> b * x + 1 / 2 ^ 54" by linarith+
  have "0 \<le> y" unfolding y_def using y(1) by (rule round_double_nonneg)
  then have z0: "0 \<le> alpha + y" by (simp add: av)
  have z1: "alpha + y < 1"
    using y2 assms by (simp add: bv av)
  have "\<bar>round_double (alpha + y) - (alpha + y)\<bar> \<le> 1 / 2 ^ 54"
    using z0 z1 by (rule round_double_error_unit)
  then have "alpha + y - 1 / 2 ^ 54 \<le> round_double (alpha + y)" by linarith
  moreover have "x < alpha + y - 1 / 2 ^ 54"
    using y1 assms by (simp add: bv av)
  ultimately have "x < round_double (alpha + y)" by linarith
  then show ?thesis by (simp only: smooth_def alpha_one b_def y_def)
qed

lemma double_grid_unit:
  assumes "is_double x" "1 / 2 \<le> x" "x < 1"
  shows "\<exists>n::int. x = real_of_int n / 2 ^ 53"
proof -
  have "round_double x = real_of_int (rne (x * 2 ^ (0 + 53))) / 2 ^ (0 + 53)"
    by (rule round_double_small) (insert assms, simp_all)
  then have "x = real_of_int (rne (x * 2 ^ 53)) / 2 ^ 53"
    using assms(1) by (simp add: is_double_def)
  then show ?thesis by blast
qed

lemma smooth_one_at:
  "smooth 1 1 = 1"
  "smooth 1 (9007199254740991 / 9007199254740992) = 9007199254740991 / 9007199254740992"
  "smooth 1 (9007199254740990 / 9007199254740992) = 9007199254740990 / 9007199254740992"
  "smooth 1 (9007199254740987 / 9007199254740992) = 9007199254740987 / 9007199254740992"
proof -
  define b where "b = round_double (1 - alpha)"
  have bv: "b = 8106479329266893 / 9007199254740992" unfolding b_def by (rule beta_value)
  have av: "alpha = 3602879701896397 / 36028797018963968" by (rule alpha_value)
  have s: "smooth 1 x = round_double (alpha + round_double (b * x))" for x
    by (simp only: smooth_def alpha_one b_def)
  have i1: "round_double (b * 1) = 8106479329266893 / 9007199254740992"
    unfolding bv by (subst round_double_small [of 0]) (simp_all add: rne_def Let_def)
  have o1: "round_double (alpha + 8106479329266893 / 9007199254740992) = 1"
    unfolding av by (subst round_double_large [of 0]) (simp_all add: rne_def Let_def)
  show "smooth 1 1 = 1" unfolding s i1 o1 ..
  have i2: "round_double (b * (9007199254740991 / 9007199254740992))
      = 8106479329266892 / 9007199254740992"
    unfolding bv by (subst round_double_small [of 0]) (simp_all add: rne_def Let_def)
  have o2: "round_double (alpha + 8106479329266892 / 9007199254740992)
      = 9007199254740991 / 9007199254740992"
    unfolding av by (subst round_double_small [of 0]) (simp_all add: rne_def Let_def)
  show "smooth 1 (9007199254740991 / 9007199254740992) = 9007199254740991 / 9007199254740992"
    unfolding s i2 o2 ..
  have i3: "round_double (b * (9007199254740990 / 9007199254740992))
      = 8106479329266891 / 9007199254740992"
    unfolding bv by (subst round_double_small [of 0]) (simp_all add: rne_def Let_def)
  have o3: "round_double (alpha + 8106479329266891 / 9007199254740992)
      = 9007199254740990 / 9007199254740992"
    unfolding av by (subst round_double_small [of 0]) (simp_all add: rne_def Let_def)
  show "smooth 1 (9007199254740990 / 9007199254740992) = 9007199254740990 / 9007199254740992"
    unfolding s i3 o3 ..
  have i4: "round_double (b * (9007199254740987 / 9007199254740992))
      = 8106479329266888 / 9007199254740992"
    unfolding bv by (subst round_double_small [of 0]) (simp_all add: rne_def Let_def)
  have o4: "round_double (alpha + 8106479329266888 / 9007199254740992)
      = 9007199254740987 / 9007199254740992"
    unfolding av by (subst round_double_small [of 0]) (simp_all add: rne_def Let_def)
  show "smooth 1 (9007199254740987 / 9007199254740992) = 9007199254740987 / 9007199254740992"
    unfolding s i4 o4 ..
qed

lemma smooth_one_lower:
  assumes "is_double x" "0 \<le> x" "x \<le> 1"
  shows "x \<le> smooth 1 x"
proof (cases "x \<le> 1 - 3 / 2 ^ 53")
  case True
  with assms(1,2) show ?thesis by (rule smooth_one_lower_far)
next
  case False
  then have gt: "1 - 3 / 2 ^ 53 < x" by simp
  show ?thesis
  proof (cases "x = 1")
    case True
    then show ?thesis by (simp add: smooth_one_at(1))
  next
    case False
    then have "x < 1" using assms(3) by simp
    moreover have "1 / 2 \<le> x" using gt by simp
    ultimately obtain n :: int where n: "x = real_of_int n / 2 ^ 53"
      using double_grid_unit [OF assms(1)] by blast
    have "real_of_int n < 2 ^ 53" using \<open>x < 1\<close> n by simp
    then have "real_of_int n < real_of_int (2 ^ 53)" by simp
    then have up: "n < 2 ^ 53" by (simp only: of_int_less_iff)
    have "2 ^ 53 - 3 < real_of_int n" using gt n by (simp add: field_simps)
    then have "real_of_int (2 ^ 53 - 3) < real_of_int n" by simp
    then have low: "2 ^ 53 - 3 < n" by (simp only: of_int_less_iff)
    have "(2::int) ^ 53 = 9007199254740992" by simp
    then have "n = 9007199254740991 \<or> n = 9007199254740990" using up low by linarith
    then show ?thesis
    proof
      assume "n = 9007199254740991"
      then have xv: "x = 9007199254740991 / 9007199254740992" using n by simp
      have "smooth 1 x = x" unfolding xv by (rule smooth_one_at(2))
      then show ?thesis by simp
    next
      assume "n = 9007199254740990"
      then have xv: "x = 9007199254740990 / 9007199254740992" using n by simp
      have "smooth 1 x = x" unfolding xv by (rule smooth_one_at(3))
      then show ?thesis by simp
    qed
  qed
qed

lemma decay_nonneg:
  assumes "0 \<le> x"
  shows "0 \<le> decay x"
proof -
  define b where "b = round_double (1 - alpha)"
  have bv: "b = 8106479329266893 / 9007199254740992" unfolding b_def by (rule beta_value)
  have "0 \<le> b * x" using assms by (simp add: bv)
  then have "0 \<le> round_double (b * x)" by (rule round_double_nonneg)
  then show ?thesis by (simp only: decay_def b_def)
qed

lemma decay_double:
  assumes "0 \<le> x"
  shows "is_double (decay x)"
proof -
  define b where "b = round_double (1 - alpha)"
  have bv: "b = 8106479329266893 / 9007199254740992" unfolding b_def by (rule beta_value)
  have "0 \<le> b * x" using assms by (simp add: bv)
  then have "is_double (round_double (b * x))" by (rule is_double_round)
  then show ?thesis by (simp only: decay_def b_def)
qed

lemma decay_upper:
  assumes "is_double x" "0 \<le> x"
  shows "decay x \<le> x"
proof -
  define b where "b = round_double (1 - alpha)"
  have bv: "b = 8106479329266893 / 9007199254740992" unfolding b_def by (rule beta_value)
  have "0 \<le> b * x" "b * x \<le> x" using assms(2) by (simp_all add: bv mult_left_le_one_le)
  then have "round_double (b * x) \<le> round_double x" by (rule round_double_mono)
  then have "round_double (b * x) \<le> x" using assms(1) by (simp add: is_double_def)
  then show ?thesis by (simp only: decay_def b_def)
qed

lemma decay_strict:
  assumes "1 / 2 ^ 1071 \<le> x"
  shows "decay x < x"
proof -
  define b where "b = round_double (1 - alpha)"
  have bv: "b = 8106479329266893 / 9007199254740992" unfolding b_def by (rule beta_value)
  define u :: real where "u = 1 / 2 ^ 1075"
  have upos: "0 < u" by (simp add: u_def)
  have "(1::real) / 2 ^ 1071 = 16 * u"
  proof -
    have "(2::real) ^ 1075 = 2 ^ 1071 * 2 ^ 4" by (simp only: power_add [symmetric]) simp
    then show ?thesis by (simp add: u_def)
  qed
  then have xu: "16 * u \<le> x" using assms by simp
  then have x: "0 < x" using upos by linarith
  then have y: "0 < b * x" by (simp add: bv)
  have err: "\<bar>round_double (b * x) - b * x\<bar> \<le> quantum (b * x) / 2"
    using y by (rule round_double_error)
  have "quantum (b * x) / 2 < x - b * x"
  proof (cases "- 1022 < binade (b * x)")
    case True
    then have "2 powr real_of_int (binade (b * x)) \<le> b * x"
      using y by (rule binade_lower [rotated])
    then have "quantum (b * x) * 2 ^ 52 \<le> b * x" by (simp only: quantum_scale52)
    then have "quantum (b * x) / 2 \<le> b * x / 2 ^ 53" by simp
    also have "\<dots> < x - b * x" using x by (simp add: bv)
    finally show ?thesis .
  next
    case False
    then have "binade (b * x) = - 1022" using binade_ge [of "b * x"] by simp
    then have "quantum (b * x) = 2 powr (- real 1074)" by (simp add: quantum_def)
    also have "\<dots> = 1 / 2 ^ 1074" by (rule pow2_minus)
    also have "\<dots> = 2 * u"
    proof -
      have "(2::real) ^ 1075 = 2 ^ 1074 * 2" by (simp only: power_Suc2 [symmetric]) simp
      then show ?thesis by (simp add: u_def)
    qed
    finally have "quantum (b * x) / 2 = u" by simp
    moreover have "u < x - b * x" using xu upos by (simp add: bv)
    ultimately show ?thesis by simp
  qed
  then have "round_double (b * x) < x" using err by linarith
  then show ?thesis by (simp only: decay_def b_def)
qed

lemma decay_stall: "decay (5 / 2 ^ 1074) = 5 / 2 ^ 1074"
proof -
  define b where "b = round_double (1 - alpha)"
  have bv: "b = 8106479329266893 / 9007199254740992" unfolding b_def by (rule beta_value)
  define c :: real where "c = 2 ^ 1074"
  have cpos: "0 < c" by (simp add: c_def)
  have split: "c = 2 ^ 1022 * 2 ^ 52" unfolding c_def by (simp only: power_add [symmetric]) simp
  have small: "b * (5 / c) < 1 / 2 ^ 1022"
  proof -
    have "b * (5 / c) = (b * 5 / 2 ^ 52) * (1 / 2 ^ 1022)" unfolding split by simp
    also have "\<dots> < 1 * (1 / 2 ^ 1022)"
      by (rule mult_strict_right_mono) (simp_all add: bv)
    finally show ?thesis by simp
  qed
  have pos: "0 < b * (5 / c)" using cpos by (simp add: bv)
  have "round_double (b * (5 / c)) = real_of_int (rne (b * (5 / c) * c)) / c"
    using round_double_tiny [OF pos small] by (simp only: c_def)
  also have "b * (5 / c) * c = b * 5" using cpos by simp
  also have "rne (b * 5) = 5" by (simp add: bv rne_def Let_def)
  finally have "round_double (b * (5 / c)) = 5 / c" by simp
  then show ?thesis by (simp only: decay_def b_def c_def)
qed

lemma smooth_one_numeral:
  "smooth 1 x = round_double (3602879701896397 / 36028797018963968
                   + round_double (8106479329266893 / 9007199254740992 * x))"
  using beta_value alpha_value by (simp only: smooth_def alpha_one)

lemma round_double_binades:
  "1 / 2 \<le> x \<Longrightarrow> x < 1 \<Longrightarrow> round_double x = real_of_int (rne (x * 2 ^ 53)) / 2 ^ 53"
  "1 / 4 \<le> x \<Longrightarrow> x < 1 / 2 \<Longrightarrow> round_double x = real_of_int (rne (x * 2 ^ 54)) / 2 ^ 54"
  "1 / 8 \<le> x \<Longrightarrow> x < 1 / 4 \<Longrightarrow> round_double x = real_of_int (rne (x * 2 ^ 55)) / 2 ^ 55"
  "1 / 16 \<le> x \<Longrightarrow> x < 1 / 8 \<Longrightarrow> round_double x = real_of_int (rne (x * 2 ^ 56)) / 2 ^ 56"
  using round_double_small [of 0 x] round_double_small [of 1 x] round_double_small [of 2 x]
    round_double_small [of 3 x]
  by simp_all

subsection \<open>The smoothed error rate\<close>

lemma failures_from_zero: "(smooth 1 ^^ 333) 0 = 9007199254740987 / 9007199254740992"
  by (simp add: eval_nat_numeral smooth_one_numeral round_double_zero round_double_binades
      rne_def Let_def)

lemma error_rate_of_start:
  "error_rate_of (record_request_start lb j) iid = error_rate_of lb iid"
  by (simp add: error_rate_of_def record_request_start_def Let_def new_metrics_def
      split: option.splits)

lemma error_rate_of_end_other:
  "j \<noteq> iid \<Longrightarrow> error_rate_of (record_request_end lb j rt ok) iid = error_rate_of lb iid"
  by (simp add: error_rate_of_def record_request_end_def split: option.splits)

lemma record_request_end_absent:
  "metrics lb iid = None \<Longrightarrow> record_request_end lb iid rt ok = lb"
  by (simp add: record_request_end_def)

lemma error_rate_of_end:
  "metrics lb iid \<noteq> None \<Longrightarrow>
   error_rate_of (record_request_end lb iid rt ok) iid
     = (if \<not> ok then smooth 1 (error_rate_of lb iid) else decay (error_rate_of lb iid))"
  by (auto simp: error_rate_of_def record_request_end_def split: option.splits)

lemma entry_after_end:
  "metrics lb iid \<noteq> None \<Longrightarrow> metrics (record_request_end lb j rt ok) iid \<noteq> None"
  by (auto simp: record_request_end_def split: option.splits)

lemma error_rate_event:
  assumes "is_double (error_rate_of lb iid)" "0 \<le> error_rate_of lb iid" "error_rate_of lb iid \<le> 1"
  shows "is_double (error_rate_of (apply_event lb ev) iid)
       \<and> 0 \<le> error_rate_of (apply_event lb ev) iid
       \<and> error_rate_of (apply_event lb ev) iid \<le> 1"
proof (cases ev)
  case (RequestStart j)
  then show ?thesis using assms by (simp add: error_rate_of_start)
next
  case (RequestEnd j rt ok)
  show ?thesis
  proof (cases "j = iid \<and> metrics lb iid \<noteq> None")
    case False
    then have "error_rate_of (record_request_end lb j rt ok) iid = error_rate_of lb iid"
      by (cases "j = iid") (simp_all add: error_rate_of_end_other record_request_end_absent)
    then show ?thesis using assms RequestEnd by simp
  next
    case True
    then have e: "error_rate_of (apply_event lb ev) iid
        = (if \<not> ok then smooth 1 (error_rate_of lb iid) else decay (error_rate_of lb iid))"
      using RequestEnd by (simp add: error_rate_of_end)
    show ?thesis
    proof (cases ok)
      case False
      then show ?thesis
        using e smooth_one_double [OF assms(2)] smooth_one_nonneg [OF assms(2)]
          smooth_one_upper [OF assms(2,3)]
        by simp
    next
      case True
      then show ?thesis
        using e decay_double [OF assms(2)] decay_nonneg [OF assms(2)]
          decay_upper [OF assms(1,2)] assms(3)
        by simp
    qed
  qed
qed

lemma error_rate_events:
  assumes "is_double (error_rate_of lb iid)" "0 \<le> error_rate_of lb iid" "error_rate_of lb iid \<le> 1"
  shows "is_double (error_rate_of (apply_events lb evs) iid)
       \<and> 0 \<le> error_rate_of (apply_events lb evs) iid
       \<and> error_rate_of (apply_events lb evs) iid \<le> 1"
  using assms unfolding apply_events_def
proof (induction evs arbitrary: lb)
  case Nil
  then show ?case by simp
next
  case (Cons ev evs)
  have "is_double (error_rate_of (apply_event lb ev) iid)
       \<and> 0 \<le> error_rate_of (apply_event lb ev) iid
       \<and> error_rate_of (apply_event lb ev) iid \<le> 1"
    using Cons.prems by (rule error_rate_event)
  then show ?case using Cons.IH [of "apply_event lb ev"] by simp
qed

lemma error_rate_failures:
  "metrics lb iid \<noteq> None \<Longrightarrow>
   error_rate_of (apply_events lb (replicate n (RequestEnd iid rt False))) iid
     = (smooth 1 ^^ n) (error_rate_of lb iid)"
proof (induction n arbitrary: lb)
  case 0
  then show ?case by (simp add: apply_events_def)
next
  case (Suc n)
  let ?lb = "record_request_end lb iid rt False"
  have "apply_events lb (replicate (Suc n) (RequestEnd iid rt False))
      = apply_events ?lb (replicate n (RequestEnd iid rt False))"
    by (simp add: apply_events_def)
  moreover have "metrics ?lb iid \<noteq> None" using Suc.prems by (rule entry_after_end)
  moreover have "error_rate_of ?lb iid = smooth 1 (error_rate_of lb iid)"
    using Suc.prems by (simp add: error_rate_of_end)
  ultimately show ?case using Suc.IH [of ?lb] by (simp add: funpow_swap1)
qed

lemma one_request_entry:
  "metrics one_request ''x'' \<noteq> None" "error_rate_of one_request ''x'' = 0"
  by (simp_all add: one_request_def record_request_start_def Let_def new_metrics_def
      init_load_balancer_def error_rate_of_def)

lemma tiny_error_rate_entry:
  "metrics tiny_error_rate ''x'' \<noteq> None" "error_rate_of tiny_error_rate ''x'' = 5 / 2 ^ 1074"
  by (simp_all add: tiny_error_rate_def update_service_metrics_def Let_def new_metrics_def
      init_load_balancer_def error_rate_of_def error_rate_update_def dict_get_def)

text \<open>
  Claim C7, as stated: starting from the error rate 0, every failed request strictly
  increases the smoothed error rate, and every successful request strictly decreases a
  positive one. The updates are evaluated in binary64. In \<open>one_request\<close> the entry of
  \<open>x\<close> has the error rate 0; 333 consecutive failed requests bring it to
  \<open>1 - 5 * 2^(-53)\<close>, and the 334th failed request leaves it there, because
  \<open>alpha + (1 - alpha) * old\<close> rounds back to \<open>old\<close>. In \<open>tiny_error_rate\<close> the
  error rate of \<open>x\<close> is positive, and a successful request leaves it as it is.
\<close>

theorem error_rate_stall_counterexample:
  "error_rate_of one_request ''x'' = 0
   \<and> error_rate_of (apply_events one_request (replicate 333 (RequestEnd ''x'' 5000 False))) ''x''
       = 9007199254740987 / 9007199254740992
   \<and> error_rate_of (apply_events one_request (replicate 334 (RequestEnd ''x'' 5000 False))) ''x''
       = 9007199254740987 / 9007199254740992
   \<and> 0 < error_rate_of tiny_error_rate ''x''
   \<and> error_rate_of (record_request_end tiny_error_rate ''x'' 200 True) ''x''
       = error_rate_of tiny_error_rate ''x''"
proof -
  have a: "error_rate_of (apply_events one_request (replicate 333 (RequestEnd ''x'' 5000 False))) ''x''
       = 9007199254740987 / 9007199254740992"
    by (simp only: error_rate_failures [OF one_request_entry(1)] one_request_entry(2)
        failures_from_zero)
  have "(334::nat) = Suc 333" by simp
  then have "(smooth 1 ^^ 334) 0 = smooth 1 ((smooth 1 ^^ 333) 0)"
    by (simp only: funpow.simps o_apply)
  then have b: "error_rate_of (apply_events one_request (replicate 334 (RequestEnd ''x'' 5000 False))) ''x''
       = 9007199254740987 / 9007199254740992"
    by (simp only: error_rate_failures [OF one_request_entry(1)] one_request_entry(2)
        failures_from_zero smooth_one_at(4))
  have c: "0 < error_rate_of tiny_error_rate ''x''"
    by (simp only: tiny_error_rate_entry(2)) simp
  have d: "error_rate_of (record_request_end tiny_error_rate ''x'' 200 True) ''x''
       = error_rate_of tiny_error_rate ''x''"
    by (simp only: error_rate_of_end [OF tiny_error_rate_entry(1)] tiny_error_rate_entry(2)
        decay_stall simp_thms if_False)
  show ?thesis using one_request_entry(2) a b c d by blast
qed

text \<open>
  Claim C7, amended: for an identifier with an entry whose error rate is a binary64
  number within \<open>[0, 1]\<close> (as is the 0 of a new entry), a failed request replaces the
  error rate \<open>old\<close> by \<open>alpha * 1 + (1 - alpha) * old\<close> with every operation rounded,
  where \<open>alpha\<close> is the binary64 number nearest to one tenth; the new value is not
  smaller than \<open>old\<close> and at most 1, and it is strictly greater than \<open>old\<close> when
  \<open>old \<le> 1 - 2^(-50)\<close>. A successful request replaces \<open>old\<close> by
  \<open>(1 - alpha) * old\<close> with every operation rounded; the new value is at least 0 and
  not greater than \<open>old\<close>, and it is strictly smaller than \<open>old\<close> when
  \<open>old \<ge> 2^(-1071)\<close>. After every sequence of \<open>record_request_start\<close> and
  \<open>record_request_end\<close> calls, for this or other identifiers, the error rate is within
  \<open>[0, 1]\<close>.
\<close>

theorem error_rate_smoothing:
  assumes "metrics lb iid \<noteq> None"
    and "is_double (error_rate_of lb iid)"
    and "0 \<le> error_rate_of lb iid"
    and "error_rate_of lb iid \<le> 1"
  shows "error_rate_of (record_request_end lb iid response_time False) iid
           = round_double (round_double (alpha * 1)
               + round_double (round_double (1 - alpha) * error_rate_of lb iid))
       \<and> error_rate_of lb iid \<le> error_rate_of (record_request_end lb iid response_time False) iid
       \<and> error_rate_of (record_request_end lb iid response_time False) iid \<le> 1
       \<and> (error_rate_of lb iid \<le> 1 - 1 / 2 ^ 50 \<longrightarrow>
            error_rate_of lb iid < error_rate_of (record_request_end lb iid response_time False) iid)
       \<and> error_rate_of (record_request_end lb iid response_time True) iid
           = round_double (round_double (1 - alpha) * error_rate_of lb iid)
       \<and> 0 \<le> error_rate_of (record_request_end lb iid response_time True) iid
       \<and> error_rate_of (record_request_end lb iid response_time True) iid \<le> error_rate_of lb iid
       \<and> (1 / 2 ^ 1071 \<le> error_rate_of lb iid \<longrightarrow>
            error_rate_of (record_request_end lb iid response_time True) iid < error_rate_of lb iid)
       \<and> (\<forall>evs. 0 \<le> error_rate_of (apply_events lb evs) iid
               \<and> error_rate_of (apply_events lb evs) iid \<le> 1)"
proof -
  let ?x = "error_rate_of lb iid"
  have f: "error_rate_of (record_request_end lb iid response_time False) iid = smooth 1 ?x"
    using assms(1) by (simp add: error_rate_of_end)
  have s: "error_rate_of (record_request_end lb iid response_time True) iid = decay ?x"
    using assms(1) by (simp add: error_rate_of_end)
  have 1: "error_rate_of (record_request_end lb iid response_time False) iid
           = round_double (round_double (alpha * 1)
               + round_double (round_double (1 - alpha) * ?x))"
    unfolding f by (simp only: smooth_def)
  have 2: "?x \<le> error_rate_of (record_request_end lb iid response_time False) iid"
    unfolding f using assms(2-4) by (rule smooth_one_lower)
  have 3: "error_rate_of (record_request_end lb iid response_time False) iid \<le> 1"
    unfolding f using assms(3,4) by (rule smooth_one_upper)
  have 4: "?x \<le> 1 - 1 / 2 ^ 50 \<longrightarrow>
            ?x < error_rate_of (record_request_end lb iid response_time False) iid"
    unfolding f using smooth_one_strict [OF assms(3)] by blast
  have 5: "error_rate_of (record_request_end lb iid response_time True) iid
           = round_double (round_double (1 - alpha) * ?x)"
    unfolding s by (simp only: decay_def)
  have 6: "0 \<le> error_rate_of (record_request_end lb iid response_time True) iid"
    unfolding s using assms(3) by (rule decay_nonneg)
  have 7: "error_rate_of (record_request_end lb iid response_time True) iid \<le> ?x"
    unfolding s using assms(2,3) by (rule decay_upper)
  have 8: "1 / 2 ^ 1071 \<le> ?x \<longrightarrow>
            error_rate_of (record_request_end lb iid response_time True) iid < ?x"
    unfolding s using decay_strict by blast
  have 9: "\<forall>evs. 0 \<le> error_rate_of (apply_events lb evs) iid
               \<and> error_rate_of (apply_events lb evs) iid \<le> 1"
    using error_rate_events [OF assms(2-4)] by blast
  show ?thesis using 1 2 3 4 5 6 7 8 9 by blast
qed

theorem error_rate_smoothing_witness:
  "metrics one_failure ''x'' \<noteq> None
   \<and> error_rate_of one_failure ''x'' = 3602879701896397 / 36028797018963968
   \<and> error_rate_of one_failure ''x''
       < error_rate_of (record_request_end one_failure ''x'' 5000 False) ''x''
   \<and> error_rate_of (record_request_end one_failure ''x'' 5000 False) ''x'' \<le> 1
   \<and> 0 \<le> error_rate_of (record_request_end one_failure ''x'' 200 True) ''x''
   \<and> error_rate_of (record_request_end one_failure ''x'' 200 True) ''x''
       < error_rate_of one_failure ''x''"
proof -
  have e: "metrics one_failure ''x'' \<noteq> None"
    unfolding one_failure_def using one_request_entry(1) by (rule entry_after_end)
  have v: "error_rate_of one_failure ''x'' = alpha"
    unfolding one_failure_def by (simp add: error_rate_of_end one_request_entry smooth_fresh(1))
  have v': "error_rate_of one_failure ''x'' = 3602879701896397 / 36028797018963968"
    using v by (simp only: alpha_value)
  have d: "is_double (error_rate_of one_failure ''x'')"
    unfolding v alpha_def by (rule is_double_round) simp
  have lo: "0 \<le> error_rate_of one_failure ''x''" by (simp add: v')
  have hi: "error_rate_of one_failure ''x'' \<le> 1" by (simp add: v')
  have far: "error_rate_of one_failure ''x'' \<le> 1 - 1 / 2 ^ 50" by (simp add: v')
  have big: "1 / 2 ^ 1071 \<le> error_rate_of one_failure ''x''" by (simp add: v')
  show ?thesis
    using error_rate_smoothing [OF e d lo hi, of 5000] error_rate_smoothing [OF e d lo hi, of 200]
      e v' far big
    by blast
qed

subsection \<open>Instance weights\<close>

lemma round_double_ranges:
  "1 / 2 \<le> x \<Longrightarrow> x < 1 \<Longrightarrow> round_double x = real_of_int (rne (x * 2 ^ 53)) / 2 ^ 53"
  "1 / 8 \<le> x \<Longrightarrow> x < 1 / 4 \<Longrightarrow> round_double x = real_of_int (rne (x * 2 ^ 55)) / 2 ^ 55"
  "1 / 16 \<le> x \<Longrightarrow> x < 1 / 8 \<Longrightarrow> round_double x = real_of_int (rne (x * 2 ^ 56)) / 2 ^ 56"
  "1 \<le> x \<Longrightarrow> x < 2 \<Longrightarrow> round_double x = real_of_int (rne (x * 2 ^ 52)) / 2 ^ 52"
  "8 \<le> x \<Longrightarrow> x < 16 \<Longrightarrow> round_double x = real_of_int (rne (x * 2 ^ 49)) / 2 ^ 49"
  using round_double_small [of 0 x] round_double_small [of 2 x] round_double_small [of 3 x]
    round_double_large [of 0 x] round_double_large [of 3 x]
  by simp_all

text \<open>
  An entry with 8 connections and no other load: the rounded weight is
  \<open>900719925474099 / 2^52\<close>, just below one fifth, and so the weighted list of
  \<^verbatim>\<open>_weighted_round_robin_select\<close> holds one copy of the instance for that weight.
\<close>

lemma weight_eight:
  "calculate_instance_weight ((new_metrics ''x'')\<lparr> current_connections := 8 \<rparr>)
     = 900719925474099 / 4503599627370496
   \<and> py_int (round_double
        (calculate_instance_weight ((new_metrics ''x'')\<lparr> current_connections := 8 \<rparr>) * 10)) = 1"
  by (simp add: calculate_instance_weight_def new_metrics_def Let_def round_double_zero
      round_double_ranges rne_def py_int_def)

section \<open>Properties of the health monitor\<close>

subsection \<open>The health check of one instance\<close>

lemma check_metric_critical_sticky:
  "check_metric thresholds sm spec st = (None, st') \<Longrightarrow> overall_status st = CRITICAL
     \<Longrightarrow> overall_status st' = CRITICAL"
  by (auto simp: check_metric_def Let_def split: option.splits if_splits)

lemma run_checks_critical_sticky:
  "run_checks thresholds sm specs st = (None, st') \<Longrightarrow> overall_status st = CRITICAL
     \<Longrightarrow> overall_status st' = CRITICAL"
proof (induction specs arbitrary: st)
  case Nil
  then show ?case by simp
next
  case (Cons spec specs)
  then show ?case
    by (auto split: prod.splits option.splits dest: check_metric_critical_sticky)
qed

lemma check_metric_critical:
  "check_metric thresholds sm spec st = (None, st') \<Longrightarrow> thresholds (spec_name spec) = Some th
     \<Longrightarrow> critical th \<le> dict_get (sm (spec_key spec)) 0
     \<Longrightarrow> overall_status st' = CRITICAL"
  by (auto simp: check_metric_def Let_def evaluate_metric_status_def make_metric_def
      split: option.splits if_splits)

lemma run_checks_critical:
  "run_checks thresholds sm specs st = (None, st') \<Longrightarrow> spec \<in> set specs
     \<Longrightarrow> thresholds (spec_name spec) = Some th
     \<Longrightarrow> critical th \<le> dict_get (sm (spec_key spec)) 0
     \<Longrightarrow> overall_status st' = CRITICAL"
proof (induction specs arbitrary: st)
  case Nil
  then show ?case by simp
next
  case (Cons a specs)
  obtain st1 where a: "check_metric thresholds sm a st = (None, st1)"
    and rest: "run_checks thresholds sm specs st1 = (None, st')"
    using Cons.prems(1) by (auto split: prod.splits option.splits)
  show ?case
  proof (cases "spec = a")
    case True
    then have "overall_status st1 = CRITICAL"
      using a Cons.prems(3,4) check_metric_critical by blast
    then show ?thesis using rest run_checks_critical_sticky by blast
  next
    case False
    then have "spec \<in> set specs" using Cons.prems(2) by simp
    then show ?thesis using Cons.IH [OF rest] Cons.prems(3,4) by blast
  qed
qed

lemma check_metric_status:
  "thresholds (spec_name spec) = Some th \<Longrightarrow>
   \<exists>st'. check_metric thresholds sm spec st = (None, st')
     \<and> overall_status st'
         = (if metric_status_of thresholds sm spec = CRITICAL then CRITICAL
            else if metric_status_of thresholds sm spec = WARNING \<and> overall_status st \<noteq> CRITICAL
              then WARNING
            else overall_status st)"
  by (simp add: check_metric_def Let_def metric_status_of_def)

lemma run_checks_worst:
  "\<forall>spec \<in> set specs. thresholds (spec_name spec) \<noteq> None \<Longrightarrow>
   \<exists>st'. run_checks thresholds sm specs st = (None, st')
     \<and> overall_status st'
         = (if CRITICAL \<in> set (map (metric_status_of thresholds sm) specs) then CRITICAL
            else if WARNING \<in> set (map (metric_status_of thresholds sm) specs)
                    \<and> overall_status st \<noteq> CRITICAL then WARNING
            else overall_status st)"
proof (induction specs arbitrary: st)
  case Nil
  then show ?case by simp
next
  case (Cons a specs)
  then obtain th where th: "thresholds (spec_name a) = Some th" by auto
  obtain st1 where a: "check_metric thresholds sm a st = (None, st1)"
    and o1: "overall_status st1
         = (if metric_status_of thresholds sm a = CRITICAL then CRITICAL
            else if metric_status_of thresholds sm a = WARNING \<and> overall_status st \<noteq> CRITICAL
              then WARNING
            else overall_status st)"
    using check_metric_status [of thresholds a th sm st] th by blast
  have "\<forall>spec \<in> set specs. thresholds (spec_name spec) \<noteq> None" using Cons.prems by simp
  from Cons.IH [OF this, of st1]
  obtain st' where rest: "run_checks thresholds sm specs st1 = (None, st')"
    and o': "overall_status st'
         = (if CRITICAL \<in> set (map (metric_status_of thresholds sm) specs) then CRITICAL
            else if WARNING \<in> set (map (metric_status_of thresholds sm) specs)
                    \<and> overall_status st1 \<noteq> CRITICAL then WARNING
            else overall_status st1)"
    by blast
  have "run_checks thresholds sm (a # specs) st = (None, st')" using a rest by simp
  moreover have "overall_status st'
         = (if CRITICAL \<in> set (map (metric_status_of thresholds sm) (a # specs)) then CRITICAL
            else if WARNING \<in> set (map (metric_status_of thresholds sm) (a # specs))
                    \<and> overall_status st \<noteq> CRITICAL then WARNING
            else overall_status st)"
    unfolding o' o1 by (cases "metric_status_of thresholds sm a") auto
  ultimately show ?case by blast
qed

lemma metric_status_critical:
  "thresholds (spec_name spec) = Some th \<Longrightarrow>
   (metric_status_of thresholds sm spec = CRITICAL)
     = (critical th \<le> dict_get (sm (spec_key spec)) 0)"
  by (simp add: metric_status_of_def evaluate_metric_status_def make_metric_def)

lemma metric_status_warning:
  "thresholds (spec_name spec) = Some th \<Longrightarrow>
   (metric_status_of thresholds sm spec = WARNING)
     = (dict_get (sm (spec_key spec)) 0 < critical th \<and> warning th \<le> dict_get (sm (spec_key spec)) 0)"
  by (auto simp: metric_status_of_def evaluate_metric_status_def make_metric_def)

lemma check_service_health_worst:
  assumes all: "\<forall>s \<in> set metric_specs. thresholds (spec_name s) \<noteq> None"
  shows "report_status (check_service_health now thresholds (Inr service_metrics))
       = worst_status (map (metric_status_of thresholds service_metrics) metric_specs)"
proof -
  let ?r = "run_checks thresholds service_metrics metric_specs init_check_state"
  let ?status = "report_status (check_service_health now thresholds (Inr service_metrics))"
  have status: "?status = (case fst ?r of None \<Rightarrow> overall_status (snd ?r) | Some e \<Rightarrow> UNKNOWN)"
    by (simp add: check_service_health_def split_beta split: option.splits)
  obtain st' where r: "?r = (None, st')"
    and o: "overall_status st'
       = (if CRITICAL \<in> set (map (metric_status_of thresholds service_metrics) metric_specs)
            then CRITICAL
          else if WARNING \<in> set (map (metric_status_of thresholds service_metrics) metric_specs)
                  \<and> overall_status init_check_state \<noteq> CRITICAL then WARNING
          else overall_status init_check_state)"
    using run_checks_worst [OF all, of service_metrics init_check_state] by blast
  have "?status = overall_status st'" using status r by simp
  moreover have "overall_status st'
      = worst_status (map (metric_status_of thresholds service_metrics) metric_specs)"
    unfolding o by (simp add: worst_status_def init_check_state_def)
  ultimately show ?thesis by simp
qed

lemma check_service_health_not_healthy:
  assumes member: "spec \<in> set metric_specs"
    and th: "thresholds (spec_name spec) = Some th"
    and crit: "critical th \<le> dict_get (service_metrics (spec_key spec)) 0"
  shows "report_status (check_service_health now thresholds (Inr service_metrics)) \<noteq> HEALTHY"
proof -
  let ?r = "run_checks thresholds service_metrics metric_specs init_check_state"
  let ?status = "report_status (check_service_health now thresholds (Inr service_metrics))"
  have status: "?status = (case fst ?r of None \<Rightarrow> overall_status (snd ?r) | Some e \<Rightarrow> UNKNOWN)"
    by (simp add: check_service_health_def split_beta split: option.splits)
  show ?thesis
  proof (cases "fst ?r")
    case None
    then have "?r = (None, snd ?r)" by (metis prod.collapse)
    then have "overall_status (snd ?r) = CRITICAL"
      using run_checks_critical member th crit by blast
    then show ?thesis using status None by simp
  next
    case (Some e)
    then show ?thesis using status by simp
  qed
qed

text \<open>
  Claim C8: for every metrics snapshot, when all five metric names have thresholds (as
  they do from construction on, since \<open>set_threshold\<close> only adds or replaces
  entries), the status of the report of \<open>check_service_health\<close> is the worst of the
  five per-metric classifications in the order critical, warning, healthy: it is
  \<open>CRITICAL\<close> when some value is at or past its critical threshold, else
  \<open>WARNING\<close> when some value is at or past its warning threshold, else \<open>HEALTHY\<close>.
  When one of the five metrics has a value at or past its critical threshold, the report
  is never \<open>HEALTHY\<close>, whatever the other values and thresholds are, and it is
  \<open>CRITICAL\<close> when all five names have thresholds.
\<close>

theorem critical_metric_never_healthy:
  "((\<forall>s \<in> set metric_specs. thresholds (spec_name s) \<noteq> None) \<longrightarrow>
      report_status (check_service_health now thresholds (Inr service_metrics))
        = worst_status (map (metric_status_of thresholds service_metrics) metric_specs)
    \<and> report_status (check_service_health now thresholds (Inr service_metrics))
        = (if \<exists>s \<in> set metric_specs. \<exists>th. thresholds (spec_name s) = Some th
                \<and> critical th \<le> dict_get (service_metrics (spec_key s)) 0
             then CRITICAL
           else if \<exists>s \<in> set metric_specs. \<exists>th. thresholds (spec_name s) = Some th
                \<and> warning th \<le> dict_get (service_metrics (spec_key s)) 0
             then WARNING
           else HEALTHY))
   \<and> (\<forall>spec \<in> set metric_specs. \<forall>th.
        thresholds (spec_name spec) = Some th
        \<and> critical th \<le> dict_get (service_metrics (spec_key spec)) 0 \<longrightarrow>
          report_status (check_service_health now thresholds (Inr service_metrics)) \<noteq> HEALTHY
        \<and> ((\<forall>s \<in> set metric_specs. thresholds (spec_name s) \<noteq> None) \<longrightarrow>
             report_status (check_service_health now thresholds (Inr service_metrics)) = CRITICAL))"
proof -
  let ?status = "report_status (check_service_health now thresholds (Inr service_metrics))"
  let ?sts = "map (metric_status_of thresholds service_metrics) metric_specs"
  let ?crit = "\<exists>s \<in> set metric_specs. \<exists>th. thresholds (spec_name s) = Some th
                \<and> critical th \<le> dict_get (service_metrics (spec_key s)) 0"
  let ?warn = "\<exists>s \<in> set metric_specs. \<exists>th. thresholds (spec_name s) = Some th
                \<and> warning th \<le> dict_get (service_metrics (spec_key s)) 0"
  have general: "?status = worst_status ?sts
      \<and> ?status = (if ?crit then CRITICAL else if ?warn then WARNING else HEALTHY)"
    if all: "\<forall>s \<in> set metric_specs. thresholds (spec_name s) \<noteq> None"
  proof -
    have w: "?status = worst_status ?sts" using all by (rule check_service_health_worst)
    have c: "(CRITICAL \<in> set ?sts) = ?crit"
    proof
      assume "CRITICAL \<in> set ?sts"
      then obtain s where s: "s \<in> set metric_specs"
        "metric_status_of thresholds service_metrics s = CRITICAL" by auto
      then obtain th where th: "thresholds (spec_name s) = Some th" using all by auto
      then show ?crit using s th metric_status_critical [where thresholds = thresholds and spec = s and th = th and sm = service_metrics] by blast
    next
      assume ?crit
      then obtain s th where s: "s \<in> set metric_specs" "thresholds (spec_name s) = Some th"
        "critical th \<le> dict_get (service_metrics (spec_key s)) 0" by blast
      then have "metric_status_of thresholds service_metrics s = CRITICAL"
        using metric_status_critical [where thresholds = thresholds and spec = s and th = th and sm = service_metrics] by blast
      then show "CRITICAL \<in> set ?sts" using s(1) by force
    qed
    have wn: "(WARNING \<in> set ?sts) = ?warn" if nc: "\<not> ?crit"
    proof
      assume "WARNING \<in> set ?sts"
      then obtain s where s: "s \<in> set metric_specs"
        "metric_status_of thresholds service_metrics s = WARNING" by auto
      then obtain th where th: "thresholds (spec_name s) = Some th" using all by auto
      then show ?warn using s th metric_status_warning [where thresholds = thresholds and spec = s and th = th and sm = service_metrics] by blast
    next
      assume ?warn
      then obtain s th where s: "s \<in> set metric_specs" "thresholds (spec_name s) = Some th"
        "warning th \<le> dict_get (service_metrics (spec_key s)) 0" by blast
      then have "dict_get (service_metrics (spec_key s)) 0 < critical th"
        using nc by force
      then have "metric_status_of thresholds service_metrics s = WARNING"
        using s(2,3) metric_status_warning [where thresholds = thresholds and spec = s and th = th and sm = service_metrics] by blast
      then show "WARNING \<in> set ?sts" using s(1) by force
    qed
    have "worst_status ?sts = (if ?crit then CRITICAL else if ?warn then WARNING else HEALTHY)"
    proof (cases ?crit)
      case True
      then have "CRITICAL \<in> set ?sts" using c by blast
      then have "worst_status ?sts = CRITICAL" by (simp add: worst_status_def)
      moreover have "(if ?crit then CRITICAL else if ?warn then WARNING else HEALTHY) = CRITICAL"
        using True by (rule if_P)
      ultimately show ?thesis by (simp only:)
    next
      case False
      then have nc: "CRITICAL \<notin> set ?sts" using c by blast
      have rhs: "(if ?crit then CRITICAL else if ?warn then WARNING else HEALTHY)
          = (if ?warn then WARNING else HEALTHY)"
        using False by (rule if_not_P)
      show ?thesis
      proof (cases ?warn)
        case True
        then have "WARNING \<in> set ?sts" using wn [OF False] by blast
        then have "worst_status ?sts = WARNING" using nc by (simp add: worst_status_def)
        moreover have "(if ?warn then WARNING else HEALTHY) = WARNING"
          using True by (rule if_P)
        ultimately show ?thesis using rhs by (simp only:)
      next
        case nw: False
        then have "WARNING \<notin> set ?sts" using wn [OF False] by blast
        then have "worst_status ?sts = HEALTHY" using nc by (simp add: worst_status_def)
        moreover have "(if ?warn then WARNING else HEALTHY) = HEALTHY"
          using nw by (rule if_not_P)
        ultimately show ?thesis using rhs by (simp only:)
      qed
    qed
    then show ?thesis using w by simp
  qed
  have critical: "?status \<noteq> HEALTHY
      \<and> ((\<forall>s \<in> set metric_specs. thresholds (spec_name s) \<noteq> None) \<longrightarrow> ?status = CRITICAL)"
    if member: "spec \<in> set metric_specs"
      and th: "thresholds (spec_name spec) = Some th"
      and crit: "critical th \<le> dict_get (service_metrics (spec_key spec)) 0"
    for spec th
  proof -
    have a: "?status \<noteq> HEALTHY"
      using member th crit by (rule check_service_health_not_healthy)
    have "?status = CRITICAL" if all: "\<forall>s \<in> set metric_specs. thresholds (spec_name s) \<noteq> None"
    proof -
      have c: ?crit using member th crit by blast
      have g: "?status = (if ?crit then CRITICAL else if ?warn then WARNING else HEALTHY)"
        using general [OF all] by blast
      have "(if ?crit then CRITICAL else if ?warn then WARNING else HEALTHY) = CRITICAL"
        using c by (rule if_P)
      then show ?thesis using g by (simp only:)
    qed
    then show ?thesis using a by blast
  qed
  show ?thesis using general critical by blast
qed

theorem critical_metric_never_healthy_witness:
  "report_status (check_service_health 0 init_thresholds (Inr error_rate_snapshot)) = CRITICAL
   \<and> worst_status (map (metric_status_of init_thresholds error_rate_snapshot) metric_specs) = CRITICAL
   \<and> report_status (check_service_health 0 init_thresholds (Inr elevated_cpu_snapshot)) = WARNING
   \<and> worst_status (map (metric_status_of init_thresholds elevated_cpu_snapshot) metric_specs)
       = WARNING"
proof -
  have all: "\<forall>s \<in> set metric_specs. init_thresholds (spec_name s) \<noteq> None"
    by (simp add: metric_specs_def init_thresholds_def)
  have c: "worst_status (map (metric_status_of init_thresholds error_rate_snapshot) metric_specs)
      = CRITICAL"
    by (simp add: worst_status_def metric_status_of_def metric_specs_def init_thresholds_def
        evaluate_metric_status_def make_metric_def error_rate_snapshot_def dict_get_def)
  have w: "worst_status (map (metric_status_of init_thresholds elevated_cpu_snapshot) metric_specs)
      = WARNING"
    by (simp add: worst_status_def metric_status_of_def metric_specs_def init_thresholds_def
        evaluate_metric_status_def make_metric_def elevated_cpu_snapshot_def dict_get_def)
  show ?thesis
    using critical_metric_never_healthy [of init_thresholds 0 error_rate_snapshot]
      critical_metric_never_healthy [of init_thresholds 0 elevated_cpu_snapshot]
      all c w
    by simp
qed

subsection \<open>The system report\<close>

lemma length_filter_full:
  "(length (filter P xs) = length xs) = (\<forall>x \<in> set xs. P x)"
proof
  assume eq: "length (filter P xs) = length xs"
  show "\<forall>x \<in> set xs. P x"
  proof (rule ccontr)
    assume "\<not> (\<forall>x \<in> set xs. P x)"
    then obtain x where "x \<in> set xs" "\<not> P x" by blast
    then have "length (filter P xs) < length xs" by (rule length_filter_less)
    then show False using eq by simp
  qed
next
  assume "\<forall>x \<in> set xs. P x"
  then show "length (filter P xs) = length xs" by simp
qed

lemma status_count_pos:
  "(0 < status_count service_reports s)
      = (\<exists>item \<in> set service_reports. report_status (snd item) = s)"
  by (auto simp: status_count_def filter_empty_conv)

lemma status_count_full:
  "(status_count service_reports s = length service_reports)
      = (\<forall>item \<in> set service_reports. report_status (snd item) = s)"
  unfolding status_count_def by (rule length_filter_full)

lemma system_health_status:
  "service_reports \<noteq> [] \<Longrightarrow>
   report_status (update_system_health now service_reports)
     = (if \<exists>item \<in> set service_reports. report_status (snd item) = CRITICAL then CRITICAL
        else if \<exists>item \<in> set service_reports. report_status (snd item) = WARNING then WARNING
        else if \<forall>item \<in> set service_reports. report_status (snd item) = UNKNOWN then UNKNOWN
        else HEALTHY)"
  by (simp add: update_system_health_def Let_def status_count_pos status_count_full)

text \<open>
  Claim C9: with no cached report the system report has the status \<open>UNKNOWN\<close>. With at
  least one cached report, the status of the system report is \<open>CRITICAL\<close> when some
  cached report is \<open>CRITICAL\<close>, else \<open>WARNING\<close> when some cached report is
  \<open>WARNING\<close>, else \<open>UNKNOWN\<close> when every cached report is \<open>UNKNOWN\<close>, else
  \<open>HEALTHY\<close>; and it is \<open>UNKNOWN\<close> exactly when every cached report is \<open>UNKNOWN\<close>.
\<close>

theorem system_health_worst:
  "report_status (update_system_health now []) = UNKNOWN
   \<and> (service_reports \<noteq> [] \<longrightarrow>
        report_status (update_system_health now service_reports)
          = (if \<exists>item \<in> set service_reports. report_status (snd item) = CRITICAL then CRITICAL
             else if \<exists>item \<in> set service_reports. report_status (snd item) = WARNING then WARNING
             else if \<forall>item \<in> set service_reports. report_status (snd item) = UNKNOWN then UNKNOWN
             else HEALTHY)
      \<and> (report_status (update_system_health now service_reports) = UNKNOWN
           \<longleftrightarrow> (\<forall>item \<in> set service_reports. report_status (snd item) = UNKNOWN)))"
proof -
  have empty: "report_status (update_system_health now []) = UNKNOWN"
    by (simp add: update_system_health_def)
  have iff: "(report_status (update_system_health now service_reports) = UNKNOWN)
      = (\<forall>item \<in> set service_reports. report_status (snd item) = UNKNOWN)"
    if ne: "service_reports \<noteq> []"
  proof -
    obtain item where item: "item \<in> set service_reports"
      using ne by (cases service_reports) auto
    show ?thesis
    proof (cases "\<forall>item \<in> set service_reports. report_status (snd item) = UNKNOWN")
      case True
      then show ?thesis using system_health_status [OF ne, of now] by auto
    next
      case False
      then show ?thesis using system_health_status [OF ne, of now] by (simp split: if_splits)
    qed
  qed
  show ?thesis using empty iff system_health_status by blast
qed

theorem system_health_worst_witness:
  "report_status (update_system_health 0 mixed_reports) = WARNING
   \<and> report_status (update_system_health 0 [(''b'', plain_report UNKNOWN)]) = UNKNOWN
   \<and> report_status (update_system_health 0 [(''a'', plain_report HEALTHY), (''b'', plain_report UNKNOWN)])
       = HEALTHY"
  using system_health_worst [of 0 mixed_reports]
    system_health_worst [of 0 "[(''b'', plain_report UNKNOWN)]"]
    system_health_worst [of 0 "[(''a'', plain_report HEALTHY), (''b'', plain_report UNKNOWN)]"]
  by (simp add: mixed_reports_def plain_report_def)

section \<open>Properties of the orchestrator\<close>

subsection \<open>The pipeline and its outcomes\<close>

lemma execute_step_skipped:
  "services sm iid = None \<Longrightarrow> execute_step cap sm request (lb, res, im) iid = (lb, res, im)"
  by (simp add: execute_step_def)

lemma execute_step_failed:
  "services sm iid = Some inst \<Longrightarrow>
   cap (service_type (config inst)) (content request) (request_context request) im = Inl e \<Longrightarrow>
   execute_step cap sm request (lb, res, im) iid
     = (record_request_end (record_request_start lb iid) iid 5000 False, res, im)"
  by (simp add: execute_step_def Let_def)

lemma execute_step_succeeded:
  "services sm iid = Some inst \<Longrightarrow>
   cap (service_type (config inst)) (content request) (request_context request) im = Inr (ms, sr) \<Longrightarrow>
   execute_step cap sm request (lb, res, im) iid
     = (record_request_end (record_request_start lb iid) iid ms True, res ++ sr,
        im(service_type_value (service_type (config inst)) \<mapsto> sr))"
  by (simp add: execute_step_def Let_def)

lemma foldl_execute_step:
  "\<exists>im'. foldl (execute_step cap sm request) (lb, res, im) pipeline
      = (foldl record_sample lb (outcomes cap sm request im pipeline),
         foldl (++) res (successful_results (outcomes cap sm request im pipeline)),
         im')"
proof (induction pipeline arbitrary: lb res im)
  case Nil
  then show ?case by simp
next
  case (Cons iid pipeline)
  show ?case
  proof (cases "services sm iid")
    case None
    then show ?thesis
      using Cons.IH [of lb res im] by (simp add: execute_step_skipped)
  next
    case (Some inst)
    show ?thesis
    proof (cases "cap (service_type (config inst)) (content request) (request_context request) im")
      case (Inl e)
      then show ?thesis
        using Some Cons.IH [of "record_request_end (record_request_start lb iid) iid 5000 False" res im]
        by (simp add: execute_step_failed)
    next
      case (Inr r)
      obtain ms sr where r: "r = (ms, sr)" by (cases r)
      have step: "execute_step cap sm request (lb, res, im) iid
          = (record_request_end (record_request_start lb iid) iid ms True, res ++ sr,
             im(service_type_value (service_type (config inst)) \<mapsto> sr))"
        using Some Inr r by (simp add: execute_step_succeeded)
      have outs: "outcomes cap sm request im (iid # pipeline)
          = (iid, Succeeded ms sr)
            # outcomes cap sm request (im(service_type_value (service_type (config inst)) \<mapsto> sr))
                pipeline"
        using Some Inr r by simp
      obtain im' where ih: "foldl (execute_step cap sm request)
            (record_request_end (record_request_start lb iid) iid ms True, res ++ sr,
             im(service_type_value (service_type (config inst)) \<mapsto> sr)) pipeline
          = (foldl record_sample (record_request_end (record_request_start lb iid) iid ms True)
               (outcomes cap sm request
                  (im(service_type_value (service_type (config inst)) \<mapsto> sr)) pipeline),
             foldl (++) (res ++ sr)
               (successful_results (outcomes cap sm request
                  (im(service_type_value (service_type (config inst)) \<mapsto> sr)) pipeline)),
             im')"
        using Cons.IH by blast
      have "foldl (execute_step cap sm request) (lb, res, im) (iid # pipeline)
          = (foldl record_sample lb (outcomes cap sm request im (iid # pipeline)),
             foldl (++) res (successful_results (outcomes cap sm request im (iid # pipeline))),
             im')"
        unfolding outs by (simp add: step ih)
      then show ?thesis by blast
    qed
  qed
qed

lemma execute_pipeline_outcomes:
  "execute_pipeline cap sm lb request pipeline
     = (merge_results (successful_results (outcomes cap sm request Map.empty pipeline)),
        foldl record_sample lb (outcomes cap sm request Map.empty pipeline))"
proof -
  obtain im' where "foldl (execute_step cap sm request) (lb, Map.empty, Map.empty) pipeline
      = (foldl record_sample lb (outcomes cap sm request Map.empty pipeline),
         foldl (++) Map.empty (successful_results (outcomes cap sm request Map.empty pipeline)),
         im')"
    using foldl_execute_step by blast
  then show ?thesis by (simp add: execute_pipeline_def merge_results_def)
qed

lemma map_fst_outcomes: "map fst (outcomes cap sm request im pipeline) = pipeline"
  by (induction pipeline arbitrary: im) (auto split: option.splits sum.splits)

lemma outcomes_count:
  "Skipped \<notin> snd ` set outs \<Longrightarrow>
   length (successful_results outs) + length (failed_steps outs) = length outs"
proof (induction outs)
  case Nil
  then show ?case by simp
next
  case (Cons a outs)
  obtain iid oc where a: "a = (iid, oc)" by (cases a)
  have "Skipped \<notin> snd ` set outs" using Cons.prems by auto
  then have ih: "length (successful_results outs) + length (failed_steps outs) = length outs"
    by (rule Cons.IH)
  have "oc \<noteq> Skipped" using Cons.prems a by auto
  then show ?case using ih a by (cases oc) simp_all
qed

lemma successful_results_append:
  "successful_results (pre @ post) = successful_results pre @ successful_results post"
  by (induction pre rule: successful_results.induct) auto

lemma failed_steps_single:
  "failed_steps outs = [f] \<Longrightarrow>
   \<exists>pre e post. outs = pre @ (f, Failed e) # post \<and> failed_steps pre = [] \<and> failed_steps post = []"
proof (induction outs)
  case Nil
  then show ?case by simp
next
  case (Cons a outs)
  obtain iid oc where a: "a = (iid, oc)" by (cases a)
  show ?case
  proof (cases oc)
    case (Failed e)
    then have "iid = f" "failed_steps outs = []" using Cons.prems a by simp_all
    then have "a # outs = [] @ (f, Failed e) # outs \<and> failed_steps [] = []
        \<and> failed_steps outs = []"
      using a Failed by simp
    then show ?thesis by blast
  next
    case Skipped
    then have "failed_steps outs = [f]" using Cons.prems a by simp
    then obtain pre e post where "outs = pre @ (f, Failed e) # post" "failed_steps pre = []"
      "failed_steps post = []" using Cons.IH by blast
    then have "a # outs = (a # pre) @ (f, Failed e) # post \<and> failed_steps (a # pre) = []
        \<and> failed_steps post = []"
      using a Skipped by simp
    then show ?thesis by blast
  next
    case (Succeeded ms r)
    then have "failed_steps outs = [f]" using Cons.prems a by simp
    then obtain pre e post where "outs = pre @ (f, Failed e) # post" "failed_steps pre = []"
      "failed_steps post = []" using Cons.IH by blast
    then have "a # outs = (a # pre) @ (f, Failed e) # post \<and> failed_steps (a # pre) = []
        \<and> failed_steps post = []"
      using a Succeeded by simp
    then show ?thesis by blast
  qed
qed

subsection \<open>A request with one failing step\<close>

lemma process_request_parts:
  assumes plan: "plan_processing_pipeline (balancer_service_manager orch) (orch_load_balancer orch)
             (with_required_services request0) = (pipeline, lb1)"
  shows "response_status (fst (process_request cap elapsed orch request0)) = ''success''"
    and "errors (fst (process_request cap elapsed orch request0)) = []"
    and "services_used (fst (process_request cap elapsed orch request0)) = pipeline"
    and "result (fst (process_request cap elapsed orch request0))
          = fst (execute_pipeline cap (orch_service_manager orch) lb1
                  (with_required_services request0) pipeline)"
    and "orch_load_balancer (snd (process_request cap elapsed orch request0))
          = snd (execute_pipeline cap (orch_service_manager orch) lb1
                  (with_required_services request0) pipeline)"
  using plan by (simp_all add: process_request_def Let_def split_beta)

lemma two_services_healthy:
  "get_healthy_services two_services RELEVANCE = [running_healthy RELEVANCE ''r1'']"
  "get_healthy_services two_services WISDOM = [running_healthy WISDOM ''w1'']"
  by (simp_all add: get_healthy_services_def get_services_by_type_def two_services_def
      List.map_filter_def running_healthy_def new_instance_def)

lemma two_step_plan:
  "plan_processing_pipeline (balancer_service_manager two_services_orchestrator)
     (orch_load_balancer two_services_orchestrator) (with_required_services two_step_request)
   = ([''r1'', ''w1''], init_load_balancer ROUND_ROBIN)"
  by (simp add: plan_processing_pipeline_def with_required_services_def two_step_request_def
      two_services_orchestrator_def select_service_instance_def two_services_healthy
      running_healthy_def new_instance_def default_config_def)

lemma two_step_outcomes:
  "outcomes relevance_only (orch_service_manager two_services_orchestrator)
     (with_required_services two_step_request) Map.empty [''r1'', ''w1'']
   = [(''r1'', Succeeded 12 relevance_result), (''w1'', Failed ''service unavailable'')]"
  by (simp add: two_services_orchestrator_def two_services_def relevance_only_def
      running_healthy_def new_instance_def default_config_def)

text \<open>
  Claim C2, as stated: a request whose pipeline has one failing step gets a response
  with the status \<^verbatim>\<open>"success"\<close>, the merged results of the other steps, and a
  non-empty list of errors. In the source the response of the successful path is built
  without errors. For \<open>two_step_request\<close> the pipeline is \<open>r1\<close>, \<open>w1\<close>; the step
  \<open>w1\<close> raises and \<open>r1\<close> succeeds; the response has the status \<^verbatim>\<open>"success"\<close> and the
  result of \<open>r1\<close>, and its list of errors is empty.
\<close>

theorem one_failing_step_errors_counterexample:
  "failed_steps (outcomes relevance_only (orch_service_manager two_services_orchestrator)
     (with_required_services two_step_request) Map.empty [''r1'', ''w1'']) = [''w1'']
   \<and> services_used (fst (process_request relevance_only (2 / 100) two_services_orchestrator two_step_request))
       = [''r1'', ''w1'']
   \<and> response_status (fst (process_request relevance_only (2 / 100) two_services_orchestrator two_step_request))
       = ''success''
   \<and> result (fst (process_request relevance_only (2 / 100) two_services_orchestrator two_step_request))
       = relevance_result
   \<and> errors (fst (process_request relevance_only (2 / 100) two_services_orchestrator two_step_request))
       = []"
  using process_request_parts [OF two_step_plan, of relevance_only "2 / 100"]
  unfolding execute_pipeline_outcomes two_step_outcomes
  by (simp add: merge_results_def)

text \<open>
  Claim C2, amended: for every request whose planned pipeline has \<open>N\<close> steps, of which
  exactly one (for the instance \<open>f\<close>) raises during processing and the other
  \<open>N - 1\<close> succeed (so none is skipped), \<open>process_request\<close> returns a response with
  the status \<^verbatim>\<open>"success"\<close>, whose result is the merge, in pipeline order, of the
  \<open>N - 1\<close> results of the steps that succeeded, and whose list of errors is empty (the
  failure is only logged). The steps after the failing one are executed, and the balancer
  after the request is the balancer after planning with the samples of the steps before
  \<open>f\<close>, then a request start and a request end with 5000 milliseconds and failure for
  \<open>f\<close>, then the samples of the steps after \<open>f\<close>.
\<close>

theorem one_failing_step:
  assumes plan: "plan_processing_pipeline (balancer_service_manager orch) (orch_load_balancer orch)
             (with_required_services request0) = (pipeline, lb1)"
    and outs: "outs = outcomes cap (orch_service_manager orch) (with_required_services request0)
             Map.empty pipeline"
    and none_skipped: "Skipped \<notin> snd ` set outs"
    and one: "failed_steps outs = [f]"
  shows "response_status (fst (process_request cap elapsed orch request0)) = ''success''
       \<and> errors (fst (process_request cap elapsed orch request0)) = []
       \<and> services_used (fst (process_request cap elapsed orch request0)) = pipeline
       \<and> result (fst (process_request cap elapsed orch request0))
           = merge_results (successful_results outs)
       \<and> length (successful_results outs) = length pipeline - 1
       \<and> (\<exists>pre e post.
             outs = pre @ (f, Failed e) # post
           \<and> failed_steps pre = [] \<and> failed_steps post = []
           \<and> pipeline = map fst pre @ f # map fst post
           \<and> result (fst (process_request cap elapsed orch request0))
               = merge_results (successful_results pre @ successful_results post)
           \<and> orch_load_balancer (snd (process_request cap elapsed orch request0))
               = foldl record_sample
                   (record_request_end (record_request_start (foldl record_sample lb1 pre) f) f 5000 False)
                   post)"
proof -
  let ?resp = "fst (process_request cap elapsed orch request0)"
  let ?orch' = "snd (process_request cap elapsed orch request0)"
  have exec: "execute_pipeline cap (orch_service_manager orch) lb1 (with_required_services request0) pipeline
      = (merge_results (successful_results outs), foldl record_sample lb1 outs)"
    unfolding outs by (rule execute_pipeline_outcomes)
  have res: "result ?resp = merge_results (successful_results outs)"
    using process_request_parts(4) [OF plan] exec by simp
  have lb: "orch_load_balancer ?orch' = foldl record_sample lb1 outs"
    using process_request_parts(5) [OF plan] exec by simp
  have "length (successful_results outs) + length (failed_steps outs) = length outs"
    using none_skipped by (rule outcomes_count)
  moreover have "length outs = length pipeline"
    using map_fst_outcomes [of cap "orch_service_manager orch" "with_required_services request0"
        Map.empty pipeline]
    unfolding outs [symmetric] by (metis length_map)
  ultimately have len: "length (successful_results outs) = length pipeline - 1"
    using one by simp
  obtain pre e post where split: "outs = pre @ (f, Failed e) # post"
    and pre: "failed_steps pre = []" and post: "failed_steps post = []"
    using failed_steps_single [OF one] by blast
  have "map fst outs = pipeline" unfolding outs by (rule map_fst_outcomes)
  then have pipe: "pipeline = map fst pre @ f # map fst post" using split by simp
  have res2: "result ?resp = merge_results (successful_results pre @ successful_results post)"
    using res split by (simp add: successful_results_append)
  have lb2: "orch_load_balancer ?orch'
      = foldl record_sample
          (record_request_end (record_request_start (foldl record_sample lb1 pre) f) f 5000 False) post"
    using lb split by simp
  show ?thesis
    using process_request_parts(1-3) [OF plan] res len split pre post pipe res2 lb2 by blast
qed

theorem one_failing_step_witness:
  "response_status (fst (process_request relevance_only (2 / 100) two_services_orchestrator two_step_request))
       = ''success''
   \<and> errors (fst (process_request relevance_only (2 / 100) two_services_orchestrator two_step_request))
       = []
   \<and> result (fst (process_request relevance_only (2 / 100) two_services_orchestrator two_step_request))
       = merge_results [relevance_result]
   \<and> map_option error_rate
        (metrics (orch_load_balancer
           (snd (process_request relevance_only (2 / 100) two_services_orchestrator two_step_request))) ''w1'')
       = Some (3602879701896397 / 36028797018963968)
   \<and> map_option average_response_time
        (metrics (orch_load_balancer
           (snd (process_request relevance_only (2 / 100) two_services_orchestrator two_step_request))) ''w1'')
       = Some 500"
proof -
  let ?outs = "[(''r1'', Succeeded 12 relevance_result), (''w1'', Failed ''service unavailable'')]"
  have outs: "?outs = outcomes relevance_only (orch_service_manager two_services_orchestrator)
      (with_required_services two_step_request) Map.empty [''r1'', ''w1'']"
    by (simp only: two_step_outcomes)
  have known: "Skipped \<notin> snd ` set ?outs" by simp
  have one: "failed_steps ?outs = [''w1'']" by simp
  obtain pre e post where split: "?outs = pre @ (''w1'', Failed e) # post"
    and lb: "orch_load_balancer
        (snd (process_request relevance_only (2 / 100) two_services_orchestrator two_step_request))
      = foldl record_sample
          (record_request_end
             (record_request_start (foldl record_sample (init_load_balancer ROUND_ROBIN) pre) ''w1'')
             ''w1'' 5000 False) post"
    and rest: "response_status (fst (process_request relevance_only (2 / 100) two_services_orchestrator two_step_request))
       = ''success''
      \<and> errors (fst (process_request relevance_only (2 / 100) two_services_orchestrator two_step_request))
       = []
      \<and> result (fst (process_request relevance_only (2 / 100) two_services_orchestrator two_step_request))
       = merge_results (successful_results ?outs)"
    using one_failing_step [OF two_step_plan outs known one, of "2 / 100"] by blast
  have "pre = [(''r1'', Succeeded 12 relevance_result)] \<and> post = []"
    using split by (cases pre; cases post) (auto simp: Cons_eq_append_conv)
  then have "map_option error_rate
        (metrics (orch_load_balancer
           (snd (process_request relevance_only (2 / 100) two_services_orchestrator two_step_request))) ''w1'')
       = Some (3602879701896397 / 36028797018963968)
      \<and> map_option average_response_time
        (metrics (orch_load_balancer
           (snd (process_request relevance_only (2 / 100) two_services_orchestrator two_step_request))) ''w1'')
       = Some 500"
    unfolding lb
    by (simp add: record_request_start_def record_request_end_def Let_def new_metrics_def
        init_load_balancer_def smooth_fresh alpha_value)
  then show ?thesis using rest by simp
qed

end
